theory Spec2Isabelle
  imports Complex_Main
begin

section \<open>Text\<close>

text \<open>
  A Python \<open>str\<close> is a sequence of code points. It is modelled as a \<open>string\<close> whose
  characters are the code points below 256 (Latin-1), which covers every literal of the
  sources: the accented capital O of the separator prefix is \<open>CHR 0xD3\<close>, the
  accented small o is \<open>CHR 0xF3\<close>.
\<close>

definition isspace :: "char \<Rightarrow> bool" where
  \<comment> \<open>\<open>str.isspace\<close> on one code point below 256\<close>
  "isspace c =
     (let n = (of_char c :: nat)
      in (9 \<le> n \<and> n \<le> 13) \<or> (28 \<le> n \<and> n \<le> 32) \<or> n = 133 \<or> n = 160)"

fun split_from :: "string \<Rightarrow> string \<Rightarrow> string list" where
  \<comment> \<open>the scan of \<open>str.split()\<close>: the word read so far, then the rest of the text\<close>
  "split_from w [] = (if w = [] then [] else [w])"
| "split_from w (c # cs) =
     (if isspace c then (if w = [] then split_from [] cs else w # split_from [] cs)
      else split_from (w @ [c]) cs)"

definition str_split :: "string \<Rightarrow> string list" where
  \<comment> \<open>\<open>s.split()\<close>: the maximal runs of non-whitespace characters\<close>
  "str_split s = split_from [] s"

definition strip :: "string \<Rightarrow> string" where
  \<comment> \<open>\<open>s.strip()\<close>\<close>
  "strip s = rev (dropWhile isspace (rev (dropWhile isspace s)))"

definition lower_char :: "char \<Rightarrow> char" where
  \<comment> \<open>\<open>str.lower\<close> on one code point below 256: A-Z and the accented capitals\<close>
  "lower_char c =
     (let n = (of_char c :: nat)
      in if (65 \<le> n \<and> n \<le> 90) \<or> (192 \<le> n \<and> n \<le> 222 \<and> n \<noteq> 215)
         then char_of (n + 32) else c)"

definition lower :: "string \<Rightarrow> string" where
  "lower s = map lower_char s"

definition startswith :: "string \<Rightarrow> string \<Rightarrow> bool" where
  \<comment> \<open>\<open>s.startswith(p)\<close>, and SQL \<open>s LIKE 'p%'\<close> for a wildcard-free \<open>p\<close>\<close>
  "startswith s p = (take (length p) s = p)"

section \<open>groq\_client.py: the request window\<close>

text \<open>A message is a \<open>Dict[str, str]\<close>; \<open>msg.get('role')\<close> is the lookup \<open>msg ''role''\<close>.\<close>

type_synonym message = "string \<rightharpoonup> string"

definition mk_message :: "string \<Rightarrow> string \<Rightarrow> message" where
  \<comment> \<open>the dict literal \<open>{"role": r, "content": c}\<close>\<close>
  "mk_message r c = [''role'' \<mapsto> r, ''content'' \<mapsto> c]"

definition SYSTEM_PROMPT :: message where
  "SYSTEM_PROMPT = mk_message ''system''
     (''Eres el CEO de una multinacional experta en Python. '' @
      ''Tu misi'' @ [CHR 0xF3] @ ''n es guiar a un desarrollador junior con orientaci'' @
      [CHR 0xF3] @ ''n profesional: '' @
      ''arquitectura de software, principios SOLID, buenas pr'' @ [CHR 0xE1] @
      ''cticas, Clean Architecture, CI/CD, testing. '' @
      ''Debes responder con claridad, profesionalidad y honestidad. '' @
      ''Si no sabes algo, debes decir expl'' @ [CHR 0xED] @ ''citamente '' @ [CHR 0x22] @
      ''No tengo informaci'' @ [CHR 0xF3] @ ''n al respecto'' @ [CHR 0x22] @
      '' y no inventes respuestas. '' @
      ''Tus respuestas deben incluir ejemplos de c'' @ [CHR 0xF3] @
      ''digo real, referencias a documentaci'' @ [CHR 0xF3] @ ''n oficial, '' @
      ''y seguir estilos de c'' @ [CHR 0xF3] @
      ''digo Python modernos (PEP 8, tipado, docstrings).'')"

definition is_system :: "message \<Rightarrow> bool" where
  \<comment> \<open>\<open>msg.get('role') == 'system'\<close>\<close>
  "is_system msg = (msg ''role'' = Some ''system'')"

definition last_n :: "nat \<Rightarrow> 'a list \<Rightarrow> 'a list" where
  \<comment> \<open>the slice \<open>xs[-n:]\<close> for \<open>n > 0\<close>: the whole list when it is shorter\<close>
  "last_n n xs = drop (length xs - n) xs"

definition with_system_prompt :: "message list \<Rightarrow> message list" where
  \<comment> \<open>lines 76-77 of \<open>stream_response\<close>\<close>
  "with_system_prompt messages =
     (if \<not> list_ex is_system messages then SYSTEM_PROMPT # messages else messages)"

definition window :: "message list \<Rightarrow> message list" where
  \<comment> \<open>lines 76-88 of \<open>stream_response\<close>: what is sent to the API\<close>
  "window messages =
     (let messages = with_system_prompt messages
      in if length messages > 21
         then let system_msgs = filter is_system messages;
                  non_system_msgs = filter (\<lambda>msg. \<not> is_system msg) messages;
                  recent_msgs = last_n 20 non_system_msgs
              in system_msgs @ recent_msgs
         else messages)"

section \<open>groq\_client.py: stream\_response\<close>

text \<open>
  The completion API is the environment. One element of the stream either has no choices,
  or a first choice without delta, or a delta whose content may be \<open>None\<close>. A call to the
  API delivers finitely many elements and then either ends or raises; a call that raises
  at once delivers none. Of the request, \<open>top_p\<close> and \<open>stream\<close> are constants and are
  left out, and so is what the function writes to the log.
\<close>

datatype api_chunk = NoChoices | NoDelta | Delta "string option"

record api_result =
  items :: "api_chunk list"
  failure :: "string option"

record request =
  req_model :: string
  req_messages :: "message list"
  req_temperature :: real
  req_max_completion_tokens :: int

record usage =
  tokens :: nat
  total_tokens :: nat

record chunk_event =
  chunk :: string
  finished :: bool
  usage :: usage
  error :: "string option"

text \<open>
  \<open>on_chunk\<close> is any Python callable: it may keep state between calls, and it may raise
  instead of answering. It is a step function on its own state; \<open>Inl e\<close> is an exception
  with text \<open>e\<close>. The third argument is the metadata dict, \<open>{}\<close> or \<open>{'error': msg}\<close>.
\<close>

type_synonym 's on_chunk_fn = "'s \<Rightarrow> string \<Rightarrow> bool \<Rightarrow> string option \<Rightarrow> (string + bool) \<times> 's"

text \<open>
  What a run of the generator does, in order: the events it yields and the calls it makes
  to \<open>on_chunk\<close> (with the answer of each call).
\<close>

datatype action =
  Yield chunk_event
| Call string bool "string option" "string + bool"

datatype outcome = Returned | Raised string

type_synonym run = "action list \<times> outcome"

definition after :: "action list \<Rightarrow> run \<Rightarrow> run" where
  "after acts r = (acts @ fst r, snd r)"

definition estimate :: "string \<Rightarrow> usage" where
  \<comment> \<open>\<open>{'tokens': len(text) // 4, 'total_tokens': len(text) // 4}\<close>\<close>
  "estimate text = \<lparr>tokens = length text div 4, total_tokens = length text div 4\<rparr>"

definition error_prefix :: string where
  "error_prefix = ''Error en la generaci'' @ [CHR 0xF3] @ ''n: ''"

definition on_error :: "'s on_chunk_fn option \<Rightarrow> 's \<Rightarrow> string \<Rightarrow> run" where
  \<comment> \<open>the \<open>except Exception as e\<close> block, lines 144-156\<close>
  "on_error on_chunk s e =
     (let error_msg = error_prefix @ e;
          ev = \<lparr>chunk = [], finished = True,
                usage = \<lparr>tokens = 0, total_tokens = 0\<rparr>, error = Some error_msg\<rparr>
      in case on_chunk of
           None \<Rightarrow> ([Yield ev], Returned)
         | Some f \<Rightarrow>
             (case fst (f s [] True (Some error_msg)) of
                Inl e' \<Rightarrow> ([Yield ev, Call [] True (Some error_msg) (Inl e')], Raised e')
              | Inr b \<Rightarrow> ([Yield ev, Call [] True (Some error_msg) (Inr b)], Returned)))"

definition emit_rest :: "'s on_chunk_fn option \<Rightarrow> 's \<Rightarrow> string list \<Rightarrow> run" where
  \<comment> \<open>after the loop, lines 129-142: \<open>if buffer:\<close> is true of a non-empty list\<close>
  "emit_rest on_chunk s buffer =
     (if buffer \<noteq> []
      then let final_chunk = concat buffer;
               ev = \<lparr>chunk = final_chunk, finished = True,
                     usage = estimate final_chunk, error = None\<rparr>
           in case on_chunk of
                None \<Rightarrow> ([Yield ev], Returned)
              | Some f \<Rightarrow>
                  (case f s final_chunk True None of
                     (Inl e, s') \<Rightarrow>
                       after [Yield ev, Call final_chunk True None (Inl e)] (on_error on_chunk s' e)
                   | (Inr b, s') \<Rightarrow> ([Yield ev, Call final_chunk True None (Inr b)], Returned))
      else ([], Returned))"

fun stream_loop ::
  "int \<Rightarrow> 's on_chunk_fn option \<Rightarrow> 's \<Rightarrow> string list \<Rightarrow> int \<Rightarrow> api_chunk list \<Rightarrow> string option \<Rightarrow> run"
where
  \<comment> \<open>the \<open>for chunk in stream\<close> loop, lines 102-127, with what follows it\<close>
  "stream_loop chunk_size on_chunk s buffer word_count [] fail =
     (case fail of
        None \<Rightarrow> emit_rest on_chunk s buffer
      | Some e \<Rightarrow> on_error on_chunk s e)"
| "stream_loop chunk_size on_chunk s buffer word_count (NoChoices # rest) fail =
     stream_loop chunk_size on_chunk s buffer word_count rest fail"
| "stream_loop chunk_size on_chunk s buffer word_count (NoDelta # rest) fail =
     stream_loop chunk_size on_chunk s buffer word_count rest fail"
| "stream_loop chunk_size on_chunk s buffer word_count (Delta c # rest) fail =
     (let content = (case c of None \<Rightarrow> [] | Some t \<Rightarrow> t);
          buffer = buffer @ [content];
          word_count = word_count + int (length (str_split content))
      in if word_count \<ge> chunk_size
         then let joined_content = concat buffer;
                  ev = \<lparr>chunk = joined_content, finished = False,
                        usage = estimate joined_content, error = None\<rparr>
              in case on_chunk of
                   None \<Rightarrow> after [Yield ev] (stream_loop chunk_size on_chunk s [] 0 rest fail)
                 | Some f \<Rightarrow>
                     (case f s joined_content False None of
                        (Inl e, s') \<Rightarrow>
                          after [Yield ev, Call joined_content False None (Inl e)]
                            (on_error on_chunk s' e)
                      | (Inr b, s') \<Rightarrow>
                          after [Yield ev, Call joined_content False None (Inr b)]
                            (if b then stream_loop chunk_size on_chunk s' [] 0 rest fail
                             else emit_rest on_chunk s' []))
         else stream_loop chunk_size on_chunk s buffer word_count rest fail)"

definition stream_response ::
  "(request \<Rightarrow> api_result) \<Rightarrow> message list \<Rightarrow> string \<Rightarrow> real \<Rightarrow> int \<Rightarrow> int \<Rightarrow>
   's on_chunk_fn option \<Rightarrow> 's \<Rightarrow> request \<times> run"
where
  \<comment> \<open>the request made of the API, and the run of the generator when it is read to its end\<close>
  "stream_response api messages model temperature max_tokens chunk_size on_chunk s =
     (let req = \<lparr>req_model = model, req_messages = window messages,
                  req_temperature = temperature, req_max_completion_tokens = max_tokens\<rparr>;
          stream = api req
      in (req, stream_loop chunk_size on_chunk s [] 0 (items stream) (failure stream)))"

definition events :: "run \<Rightarrow> chunk_event list" where
  \<comment> \<open>the events of a run, in the order they were yielded\<close>
  "events r = concat (map (\<lambda>a. case a of Yield ev \<Rightarrow> [ev] | Call _ _ _ _ \<Rightarrow> []) (fst r))"

definition fragments :: "api_chunk list \<Rightarrow> string list" where
  \<comment> \<open>the texts that the loop appends to its buffer, one for each element with a delta\<close>
  "fragments xs =
     concat (map (\<lambda>x. case x of Delta c \<Rightarrow> [case c of None \<Rightarrow> [] | Some t \<Rightarrow> t] | _ \<Rightarrow> []) xs)"

definition word_total :: "string list \<Rightarrow> int" where
  \<comment> \<open>what \<open>word_count\<close> adds up over these fragments: each one is split on its own\<close>
  "word_total fs = (\<Sum>f\<leftarrow>fs. int (length (str_split f)))"

definition non_final :: "string \<Rightarrow> chunk_event" where
  \<comment> \<open>the dict of lines 117-122\<close>
  "non_final text = \<lparr>chunk = text, finished = False, usage = estimate text, error = None\<rparr>"

definition final :: "string \<Rightarrow> chunk_event" where
  \<comment> \<open>the dict of lines 132-137\<close>
  "final text = \<lparr>chunk = text, finished = True, usage = estimate text, error = None\<rparr>"

definition error_event :: "string \<Rightarrow> chunk_event" where
  \<comment> \<open>the dict of lines 148-153, for an exception with text \<open>e\<close>\<close>
  "error_event e = \<lparr>chunk = [], finished = True,
     usage = \<lparr>tokens = 0, total_tokens = 0\<rparr>, error = Some (error_prefix @ e)\<rparr>"

definition continues :: "'s on_chunk_fn option \<Rightarrow> bool" where
  \<comment> \<open>no callback, or one that answers \<open>True\<close> to every call\<close>
  "continues on_chunk =
     (case on_chunk of None \<Rightarrow> True | Some f \<Rightarrow> (\<forall>s t b m. fst (f s t b m) = Inr True))"


fun grouping :: "int \<Rightarrow> string list \<Rightarrow> int \<Rightarrow> string list \<Rightarrow> string list list \<times> string list" where
  \<comment> \<open>proof device: how the loop cuts a list of fragments, from a given buffer and count\<close>
  "grouping chunk_size buffer word_count [] = ([], buffer)"
| "grouping chunk_size buffer word_count (f # fs) =
     (if word_count + int (length (str_split f)) \<ge> chunk_size
      then ((buffer @ [f]) # fst (grouping chunk_size [] 0 fs), snd (grouping chunk_size [] 0 fs))
      else grouping chunk_size (buffer @ [f]) (word_count + int (length (str_split f))) fs)"

definition tail_events :: "string option \<Rightarrow> string list \<Rightarrow> chunk_event list" where
  \<comment> \<open>proof device: what follows the loop when the callback lets it run to its end\<close>
  "tail_events fail rest =
     (case fail of
        None \<Rightarrow> (if rest = [] then [] else [final (concat rest)])
      | Some e \<Rightarrow> [error_event e])"

definition answers :: "action list \<Rightarrow> (string + bool) list" where
  \<comment> \<open>what \<open>on_chunk\<close> answered, call by call\<close>
  "answers acts = concat (map (\<lambda>a. case a of Yield _ \<Rightarrow> [] | Call _ _ _ r \<Rightarrow> [r]) acts)"

fun orderly :: "action list \<Rightarrow> bool" where
  \<comment> \<open>every event is handed to the callback at once, and nothing follows the answer
      \<open>False\<close>\<close>
  "orderly [] = True"
| "orderly (Yield ev # Call t b m a # acts) =
     (t = chunk ev \<and> b = finished ev \<and> (a = Inr False \<longrightarrow> acts = []) \<and> orderly acts)"
| "orderly _ = False"

definition replies :: "api_result \<Rightarrow> request \<Rightarrow> api_result" where
  \<comment> \<open>an API that delivers the same stream whatever it is asked\<close>
  "replies res req = res"

section \<open>chat\_db.py: the message store\<close>

text \<open>
  The table \<open>messages\<close> is the list of its rows in insertion order, with the next value
  of the id sequence. A \<open>datetime\<close> is a point on a linear time scale. Every function of
  the module runs inside one \<open>get_db\<close> transaction; its argument \<open>fault\<close> says whether the
  database fails for a reason of its own during the call (\<open>Some e\<close>, an \<open>SQLAlchemyError\<close>
  with text \<open>e\<close>, for instance a lost connection), in which case the transaction is
  rolled back and the table is as before. What the database does with the values it is
  given is part of the model: the bound of the \<open>role\<close> column and a NUL character.
\<close>

type_synonym timestamp = int

record Message =
  m_id :: int
  m_role :: string
  m_content :: string
  m_created_at :: timestamp

record db =
  rows :: "Message list"
  next_id :: int

text \<open>The dict that \<open>add_message\<close> and \<open>get_all_messages\<close> build from a row.\<close>

record message_dict =
  d_id :: int
  d_role :: string
  d_content :: string
  d_created_at :: "timestamp option"

datatype error = ValueError string | SQLAlchemyError string

definition to_dict :: "Message \<Rightarrow> message_dict" where
  \<comment> \<open>\<open>created_at\<close> is rendered by \<open>isoformat()\<close>; the model keeps the time itself\<close>
  "to_dict msg = \<lparr>d_id = m_id msg, d_role = m_role msg, d_content = m_content msg,
                   d_created_at = Some (m_created_at msg)\<rparr>"

definition varchar :: "nat \<Rightarrow> string \<Rightarrow> string option" where
  \<comment> \<open>what PostgreSQL stores in a \<open>String(n)\<close> column (\<open>character varying(n)\<close>, line 56): the
      text itself when it has at most \<open>n\<close> characters; a longer text is an error, unless
      every character past the first \<open>n\<close> is a space, and then those are cut off\<close>
  "varchar n s = (if list_all (\<lambda>c. c = CHR '' '') (drop n s) then Some (take n s) else None)"

definition value_too_long :: string where
  \<comment> \<open>stands for \<open>str(e)\<close> of the exception raised for the database's error of this
      message; the real text also holds the statement and its parameters\<close>
  "value_too_long = ''value too long for type character varying(20)''"

definition add_message ::
  "db \<Rightarrow> timestamp \<Rightarrow> string option \<Rightarrow> string \<Rightarrow> string \<Rightarrow> (error + message_dict) \<times> db"
where
  \<comment> \<open>\<open>now\<close> is the clock reading that the column default takes. A text with a NUL
      character never reaches the database: the driver raises a \<open>ValueError\<close>, which the
      handler of line 116 does not catch. The dict is read from the row as stored\<close>
  "add_message db now fault role content =
     (if role = [] then (Inl (ValueError ''El rol es requerido y debe ser un string''), db)
      else if content = []
      then (Inl (ValueError ''El contenido es requerido y debe ser un string''), db)
      else case fault of
             Some e \<Rightarrow> (Inl (SQLAlchemyError (''Error al agregar mensaje: '' @ e)), db)
           | None \<Rightarrow>
               if CHR 0x00 \<in> set (lower role) \<or> CHR 0x00 \<in> set content
               then (Inl (ValueError ''A string literal cannot contain NUL (0x00) characters.''),
                     db)
               else (case varchar 20 (lower role) of
                       None \<Rightarrow>
                         (Inl (SQLAlchemyError (''Error al agregar mensaje: '' @ value_too_long)),
                          db)
                     | Some stored_role \<Rightarrow>
                         (let message = \<lparr>m_id = next_id db, m_role = stored_role,
                                         m_content = content, m_created_at = now\<rparr>
                          in (Inr (to_dict message),
                              db\<lparr>rows := rows db @ [message], next_id := next_id db + 1\<rparr>))))"

definition separator_prefix :: string where
  "separator_prefix = ''--- NUEVA CONVERSACI'' @ [CHR 0xD3] @ ''N''"

definition is_separator :: "Message \<Rightarrow> bool" where
  \<comment> \<open>\<open>role == "system"\<close> and \<open>content LIKE '--- NUEVA CONVERSACION%'\<close>\<close>
  "is_separator msg = (m_role msg = ''system'' \<and> startswith (m_content msg) separator_prefix)"

definition order_by_created_at_desc :: "Message list \<Rightarrow> Message list" where
  \<comment> \<open>\<open>ORDER BY created_at DESC\<close>; the database fixes no order among equal times, the
      model takes the later row first\<close>
  "order_by_created_at_desc ms = rev (sort_key m_created_at ms)"

definition effective_limit :: "int option \<Rightarrow> nat" where
  \<comment> \<open>\<open>limit if limit and limit > 0 else 100\<close>\<close>
  "effective_limit limit =
     (case limit of None \<Rightarrow> 100 | Some l \<Rightarrow> if l \<noteq> 0 \<and> l > 0 then nat l else 100)"

definition last_separator :: "db \<Rightarrow> int option" where
  \<comment> \<open>lines 148-157: the id of the separator with the latest time, if there is one\<close>
  "last_separator db =
     (case order_by_created_at_desc (filter is_separator (rows db)) of
        [] \<Rightarrow> None
      | msg # _ \<Rightarrow> Some (m_id msg))"

definition matching ::
  "(string \<Rightarrow> string \<Rightarrow> bool) \<Rightarrow> db \<Rightarrow> string option \<Rightarrow> string option \<Rightarrow> bool \<Rightarrow> Message list"
where
  \<comment> \<open>lines 145-170: the rows that pass the filters of the query, in table order\<close>
  "matching ilike db search role current_conversation_only =
     (let last_separator_id = (if current_conversation_only then last_separator db else None);
          query = rows db;
          query = (case last_separator_id of
                     Some sid \<Rightarrow>
                       if current_conversation_only \<and> sid \<noteq> 0
                       then filter (\<lambda>msg. m_id msg \<ge> sid) query else query
                   | None \<Rightarrow> query);
          query = (case search of
                     Some text \<Rightarrow>
                       if text \<noteq> []
                       then filter (\<lambda>msg. ilike (''%'' @ text @ ''%'') (m_content msg)) query
                       else query
                   | None \<Rightarrow> query);
          query = (case role of
                     Some r \<Rightarrow>
                       if r \<noteq> [] then filter (\<lambda>msg. m_role msg = lower r) query else query
                   | None \<Rightarrow> query)
      in query)"

definition get_all_messages ::
  "(string \<Rightarrow> string \<Rightarrow> bool) \<Rightarrow> db \<Rightarrow> string option \<Rightarrow> int option \<Rightarrow> nat \<Rightarrow> string option \<Rightarrow>
   string option \<Rightarrow> bool \<Rightarrow> error + (message_dict list \<times> nat)"
where
  \<comment> \<open>\<open>ilike pattern text\<close> is the database's operator \<open>text ILIKE pattern\<close>; \<open>offset\<close> is
      a row count (the database rejects a negative one)\<close>
  "get_all_messages ilike db fault limit offset search role current_conversation_only =
     (case fault of
        Some e \<Rightarrow> Inl (SQLAlchemyError (''Error al obtener mensajes: '' @ e))
      | None \<Rightarrow>
          (let query = matching ilike db search role current_conversation_only;
               total = length query;
               db_messages = take (effective_limit limit)
                               (drop offset (order_by_created_at_desc query));
               messages = map to_dict db_messages
           in Inr (messages, total)))"

definition clear_chat_history :: "db \<Rightarrow> string option \<Rightarrow> error option \<times> db" where
  "clear_chat_history db fault =
     (case fault of
        Some e \<Rightarrow> (Some (SQLAlchemyError (''Error al limpiar el historial: '' @ e)), db)
      | None \<Rightarrow> (None, db\<lparr>rows := []\<rparr>))"

definition create_new_conversation :: "db \<Rightarrow> string \<Rightarrow> timestamp \<Rightarrow> string option \<Rightarrow> bool \<times> db" where
  \<comment> \<open>\<open>stamp\<close> is the text of the first clock reading (\<open>strftime\<close>), \<open>now\<close> the second
      clock reading, stored as \<open>created_at\<close>\<close>
  "create_new_conversation db stamp now fault =
     (let separator_message = separator_prefix @ '' INICIADA: '' @ stamp @ '' ---''
      in case fault of
           Some e \<Rightarrow> (False, db)
         | None \<Rightarrow>
             (let new_message = \<lparr>m_id = next_id db, m_role = ''system'',
                                  m_content = separator_message, m_created_at = now\<rparr>
              in (True, db\<lparr>rows := rows db @ [new_message], next_id := next_id db + 1\<rparr>)))"

text \<open>A new database: an empty table, the id sequence at 1.\<close>

definition empty_db :: db where
  "empty_db = \<lparr>rows = [], next_id = 1\<rparr>"

text \<open>The operations of the module that act on the table, with their arguments.\<close>

datatype store_op =
  AddMessage timestamp "string option" string string
| GetAllMessages "string option" "int option" nat "string option" "string option" bool
| ClearChatHistory "string option"
| CreateNewConversation string timestamp "string option"

fun apply_op :: "db \<Rightarrow> store_op \<Rightarrow> db" where
  "apply_op db (AddMessage now fault role content) = snd (add_message db now fault role content)"
| "apply_op db (GetAllMessages fault limit offset search role cc) = db"
| "apply_op db (ClearChatHistory fault) = snd (clear_chat_history db fault)"
| "apply_op db (CreateNewConversation stamp now fault) =
     snd (create_new_conversation db stamp now fault)"


definition well_formed :: "db \<Rightarrow> bool" where
  \<comment> \<open>the ids in the table were drawn from the sequence: positive and below its next value\<close>
  "well_formed db =
     (0 < next_id db \<and> list_all (\<lambda>msg. 0 < m_id msg \<and> m_id msg < next_id db) (rows db))"

definition scoped :: "int \<Rightarrow> timestamp \<Rightarrow> db \<Rightarrow> bool" where
  \<comment> \<open>proof device, for a separator stored with id \<open>sid\<close> at time \<open>now\<close>: the sequence has
      passed \<open>sid\<close>, the separators with smaller ids are older than \<open>now\<close>, and while a row
      with a smaller id is in the table so is a separator that is neither\<close>
  "scoped sid now db =
     (sid < next_id db \<and>
      (\<forall>r\<in>set (rows db). m_id r < sid \<longrightarrow> is_separator r \<longrightarrow> m_created_at r < now) \<and>
      ((\<exists>r\<in>set (rows db). m_id r < sid) \<longrightarrow>
       (\<exists>r\<in>set (rows db). is_separator r \<and> sid \<le> m_id r \<and> now \<le> m_created_at r)))"

section \<open>app.py: process\_stream and ask\<close>

text \<open>
  Of \<open>CONFIG\<close> the entries that decide what \<open>process_stream\<close> returns: words per chunk,
  and whether a long answer pauses for a confirmation. What is printed is left out.
\<close>

record config =
  max_chunk_size :: int
  confirm_continue :: bool

definition CONFIG :: config where
  "CONFIG = \<lparr>max_chunk_size = 30, confirm_continue = True\<rparr>"

definition on_chunk_callback :: "unit on_chunk_fn" where
  \<comment> \<open>\<open>return True\<close>\<close>
  "on_chunk_callback s chunk' finished' metadata' = (Inr True, s)"

text \<open>
  What \<open>input()\<close> meets at the terminal: a line, Ctrl-C (\<open>KeyboardInterrupt\<close>) or the end of
  the input (\<open>EOFError\<close>). A terminal that has nothing more to give is at its end.
\<close>

datatype stdin_event = Line string | KeyboardInterrupt | EOFError

text \<open>
  The three dicts that \<open>process_stream\<close> returns as metadata:
  \<open>{'model', 'tokens', 'time_elapsed'}\<close>, \<open>{'interrupted': True}\<close> and \<open>{'error': str(e)}\<close>.
\<close>

datatype metadata =
  Summary string nat real
| Interrupted
| Failed string

definition get_interrupted :: "metadata \<Rightarrow> bool" where
  \<comment> \<open>the truth value of \<open>metadata.get('interrupted')\<close>\<close>
  "get_interrupted md = (case md of Interrupted \<Rightarrow> True | _ \<Rightarrow> False)"

definition get_error :: "metadata \<Rightarrow> bool" where
  \<comment> \<open>the truth value of \<open>metadata.get('error')\<close>: a non-empty text\<close>
  "get_error md = (case md of Failed e \<Rightarrow> e \<noteq> [] | _ \<Rightarrow> False)"

text \<open>How the body of the \<open>try\<close> ends: at the summary, or in one of the two handlers.\<close>

datatype loop_end =
  Finished "string list" "chunk_event option"
| Interrupt "string list"
| Exception "string list" string

fun consume ::
  "chunk_event list \<Rightarrow> outcome \<Rightarrow> stdin_event list \<Rightarrow> string list \<Rightarrow> string list \<Rightarrow>
   chunk_event option \<Rightarrow> loop_end"
where
  \<comment> \<open>the loop of lines 111-139 over the events still to come, with \<open>full_response\<close>,
      \<open>current_chunk\<close> and the last value of \<open>chunk_data\<close>\<close>
  "consume [] outc stdin full_response current_chunk last_data =
     (case outc of
        Returned \<Rightarrow> Finished full_response last_data
      | Raised e \<Rightarrow> Exception full_response e)"
| "consume (chunk_data # rest) outc stdin full_response current_chunk last_data =
     (if (case error chunk_data of Some e \<Rightarrow> e \<noteq> [] | None \<Rightarrow> False)
      then Finished full_response (Some chunk_data)
      else let current_chunk = current_chunk @ [chunk chunk_data];
               full_response = full_response @ [chunk chunk_data]
           in if int (length (str_split (concat current_chunk))) > max_chunk_size CONFIG * 3 \<and>
                 confirm_continue CONFIG \<and> \<not> finished chunk_data
              then (case stdin of
                      [] \<Rightarrow> Exception full_response ''EOF when reading a line''
                    | Line user_input # stdin' \<Rightarrow>
                        if lower user_input = ''q''
                        then Finished full_response (Some chunk_data)
                        else consume rest outc stdin' full_response [] (Some chunk_data)
                    | KeyboardInterrupt # stdin' \<Rightarrow> Interrupt full_response
                    | EOFError # stdin' \<Rightarrow> Exception full_response ''EOF when reading a line'')
              else consume rest outc stdin full_response current_chunk (Some chunk_data))"

definition process_stream ::
  "(request \<Rightarrow> api_result) \<Rightarrow> stdin_event list \<Rightarrow> real \<Rightarrow> real \<Rightarrow> message list \<Rightarrow> string \<Rightarrow> int \<Rightarrow>
   real \<Rightarrow> string \<times> metadata"
where
  \<comment> \<open>\<open>start_time\<close> and \<open>end_time\<close> are the two readings of \<open>time.time()\<close>\<close>
  "process_stream api stdin start_time end_time messages model max_tokens temperature =
     (let stream = snd (stream_response api messages model temperature max_tokens
                          (max_chunk_size CONFIG) (Some on_chunk_callback) ())
      in case consume (events stream) (snd stream) stdin [] [] None of
           Finished full_response last_data \<Rightarrow>
             (concat full_response,
              Summary model
                (case last_data of None \<Rightarrow> 0 | Some chunk_data \<Rightarrow> total_tokens (usage chunk_data))
                (end_time - start_time))
         | Interrupt full_response \<Rightarrow> (concat full_response, Interrupted)
         | Exception full_response e \<Rightarrow> (concat full_response, Failed e))"

text \<open>
  What one run of the \<open>ask\<close> command meets outside itself: the clock readings and database
  faults of its three accesses to the store, the API, the terminal and the stopwatch.
\<close>

record ask_env =
  question_time :: timestamp
  question_fault :: "string option"
  history_fault :: "string option"
  env_api :: "request \<Rightarrow> api_result"
  env_stdin :: "stdin_event list"
  env_start_time :: real
  env_end_time :: real
  answer_time :: timestamp
  answer_fault :: "string option"

definition ask ::
  "(string \<Rightarrow> string \<Rightarrow> bool) \<Rightarrow> ask_env \<Rightarrow> db \<Rightarrow> string \<Rightarrow> string \<Rightarrow> real \<Rightarrow> int \<Rightarrow> int option \<times> db"
where
  \<comment> \<open>the result is the code of \<open>typer.Exit\<close> (\<open>None\<close> when the command returns) and the
      table after the command\<close>
  "ask ilike env db question model temperature max_tokens =
     (if strip question = [] then (Some 1, db)
      else if lower question \<in> set [''exit'', ''quit'', ''salir''] then (Some 0, db)
      else case add_message db (question_time env) (question_fault env) ''user'' question of
             (Inl e, db) \<Rightarrow> (Some 1, db)
           | (Inr stored, db) \<Rightarrow>
               (case get_all_messages ilike db (history_fault env) (Some 20) 0 None None True of
                  Inl e \<Rightarrow> (Some 1, db)
                | Inr (message_records, _) \<Rightarrow>
                    (let messages =
                           map (\<lambda>msg. mk_message
                                  (if d_role msg = ''user'' then ''user'' else ''assistant'')
                                  (d_content msg)) message_records;
                         (response, metadata) =
                           process_stream (env_api env) (env_stdin env) (env_start_time env) (env_end_time env)
                             messages model max_tokens (max 0 (min 1 temperature))
                     in if \<not> get_interrupted metadata \<and> \<not> get_error metadata
                        then (case add_message db (answer_time env) (answer_fault env)
                                     ''assistant'' response of
                                (Inl e, db) \<Rightarrow> (Some 1, db)
                              | (Inr stored, db) \<Rightarrow> (None, db))
                        else (None, db))))"

section \<open>Properties of the request window\<close>

lemma is_system_mk_message: "is_system (mk_message r c) = (r = ''system'')"
  by (simp add: is_system_def mk_message_def)

lemma is_system_SYSTEM_PROMPT: "is_system SYSTEM_PROMPT"
  by (simp add: SYSTEM_PROMPT_def is_system_mk_message)

lemma sent_window:
  "req_messages (fst (stream_response api messages model temperature max_tokens chunk_size on_chunk s))
     = window messages"
  by (simp add: stream_response_def Let_def)

lemma mk_message_inject: "mk_message r c = mk_message r' c' \<longleftrightarrow> r = r' \<and> c = c'"
proof
  assume e: "mk_message r c = mk_message r' c'"
  have "mk_message r c ''role'' = mk_message r' c' ''role''"
    and "mk_message r c ''content'' = mk_message r' c' ''content''"
    by (simp_all only: e)
  then show "r = r' \<and> c = c'"
    by (simp add: mk_message_def)
qed simp

text \<open>
  C4. Whatever the input list: when no message has role \<open>system\<close> the fixed system
  instruction is put in front. When the list then has more than 21 messages, the request
  holds exactly its system messages, in their order, followed by its other messages
  without the oldest ones: the other messages of the list are some dropped messages
  followed by the other messages of the request, and the request has 20 of them, or all
  when there are fewer. A list of at most 21 messages is sent as it is. With one system
  message and 25 others the request has 21 messages: the system message and the other
  messages from the sixth on.
\<close>

theorem stream_response_window:
  "let ms = (if list_ex is_system messages then messages else SYSTEM_PROMPT # messages);
       sent = req_messages (fst (stream_response api messages model temperature max_tokens
                chunk_size on_chunk s));
       others = filter (\<lambda>m. \<not> is_system m)
   in (length ms > 21 \<longrightarrow>
         sent = filter is_system ms @ drop (length (others ms) - 20) (others ms) \<and>
         filter is_system sent = filter is_system ms \<and>
         (\<exists>dropped. others ms = dropped @ others sent \<and>
                    length dropped = length (others ms) - 20) \<and>
         length (others sent) = min 20 (length (others ms))) \<and>
      (length ms \<le> 21 \<longrightarrow> sent = ms) \<and>
      (length (filter is_system messages) = 1 \<and> length (others messages) = 25 \<longrightarrow>
         length sent = 21 \<and>
         sent = filter is_system messages @ drop 5 (others messages))"
proof -
  define ms where "ms = (if list_ex is_system messages then messages else SYSTEM_PROMPT # messages)"
  define ns where "ns = filter (\<lambda>m. \<not> is_system m) ms"
  define sent where "sent = req_messages (fst (stream_response api messages model temperature
                max_tokens chunk_size on_chunk s))"
  have ms: "with_system_prompt messages = ms"
    by (simp add: with_system_prompt_def ms_def)
  have sent: "sent = window messages"
    unfolding sent_def by (rule sent_window)
  have big: "sent = filter is_system ms @ drop (length ns - 20) ns" if "length ms > 21"
    using that by (simp add: sent window_def ms ns_def Let_def last_n_def)
  have small: "sent = ms" if "length ms \<le> 21"
    using that by (simp add: sent window_def ms Let_def)
  have ns_non: "\<forall>m\<in>set (drop k ns). \<not> is_system m" for k
    using set_drop_subset [of k ns] by (auto simp: ns_def)
  have f1: "filter is_system (drop k ns) = []" for k
    using ns_non [of k] by (simp add: filter_empty_conv)
  have f2: "filter (\<lambda>m. \<not> is_system m) (drop k ns) = drop k ns" for k
    using ns_non [of k] by (simp add: filter_id_conv)
  have sys: "filter is_system sent = filter is_system ms" if "length ms > 21"
    by (simp add: big [OF that] f1)
  have oth: "filter (\<lambda>m. \<not> is_system m) sent = drop (length ns - 20) ns" if "length ms > 21"
    by (simp add: big [OF that] f2)
  have suffix: "\<exists>dropped. ns = dropped @ filter (\<lambda>m. \<not> is_system m) sent \<and>
                  length dropped = length ns - 20"
    if "length ms > 21"
  proof (intro exI conjI)
    show "ns = take (length ns - 20) ns @ filter (\<lambda>m. \<not> is_system m) sent"
      by (simp add: oth [OF that])
    show "length (take (length ns - 20) ns) = length ns - 20"
      by simp
  qed
  have count: "length (filter (\<lambda>m. \<not> is_system m) sent) = min 20 (length ns)"
    if "length ms > 21"
    by (simp add: oth [OF that])
  have example: "length sent = 21 \<and>
      sent = filter is_system messages @ drop 5 (filter (\<lambda>m. \<not> is_system m) messages)"
    if one: "length (filter is_system messages) = 1"
      and many: "length (filter (\<lambda>m. \<not> is_system m) messages) = 25"
  proof -
    from one have "filter is_system messages \<noteq> []" by auto
    then have ex: "list_ex is_system messages"
      by (auto simp: filter_empty_conv list_ex_iff)
    then have eq: "ms = messages" by (simp add: ms_def)
    have "length messages = length (filter is_system messages)
            + length (filter (\<lambda>m. \<not> is_system m) messages)"
      by (rule sum_length_filter_compl [symmetric])
    with one many have len: "length ms > 21" by (simp add: eq)
    have "length ns = 25" using many by (simp add: ns_def eq)
    then show ?thesis
      using one by (simp add: big [OF len] ns_def eq)
  qed
  show ?thesis
    unfolding Let_def sent_def [symmetric] ms_def [symmetric]
    using big small sys suffix count example
    by (simp add: ns_def [symmetric])
qed

theorem stream_response_window_witness:
  "length (filter is_system
     (map (\<lambda>i. mk_message ''user'' (replicate i CHR ''x'')) [0..<25]
      @ [mk_message ''system'' ''s''])) = 1 \<and>
   length (filter (\<lambda>m. \<not> is_system m)
     (map (\<lambda>i. mk_message ''user'' (replicate i CHR ''x'')) [0..<25]
      @ [mk_message ''system'' ''s''])) = 25 \<and>
   req_messages (fst (stream_response (\<lambda>r. \<lparr>items = [], failure = None\<rparr>)
     (map (\<lambda>i. mk_message ''user'' (replicate i CHR ''x'')) [0..<25]
      @ [mk_message ''system'' ''s''])
     ''m'' 0 1024 30 (None :: unit on_chunk_fn option) ()))
     = mk_message ''system'' ''s''
       # map (\<lambda>i. mk_message ''user'' (replicate i CHR ''x'')) [5..<25] \<and>
   mk_message ''user'' (replicate 4 CHR ''x'')
     \<notin> set (mk_message ''system'' ''s''
              # map (\<lambda>i. mk_message ''user'' (replicate i CHR ''x'')) [5..<25]) \<and>
   length (mk_message ''system'' ''s''
           # map (\<lambda>i. mk_message ''user'' (replicate i CHR ''x'')) [5..<25]) = 21 \<and>
   \<not> list_ex is_system [mk_message ''user'' ''hola''] \<and>
   req_messages (fst (stream_response (\<lambda>r. \<lparr>items = [], failure = None\<rparr>)
     [mk_message ''user'' ''hola''] ''m'' 0 1024 30 (None :: unit on_chunk_fn option) ()))
     = [SYSTEM_PROMPT, mk_message ''user'' ''hola'']"
proof -
  let ?f = "\<lambda>i. mk_message ''user'' (replicate i CHR ''x'')"
  let ?M = "map ?f [0..<25] @ [mk_message ''system'' ''s'']"
  let ?api = "\<lambda>r :: request. \<lparr>items = [], failure = None\<rparr>"
  have sys: "filter is_system ?M = [mk_message ''system'' ''s'']"
    by (simp add: filter_map comp_def is_system_mk_message)
  have oth: "filter (\<lambda>m. \<not> is_system m) ?M = map ?f [0..<25]"
    by (simp add: filter_map comp_def is_system_mk_message)
  have a: "length (filter is_system ?M) = 1"
    unfolding sys by simp
  have b: "length (filter (\<lambda>m. \<not> is_system m) ?M) = 25"
    unfolding oth by simp
  have c: "req_messages (fst (stream_response ?api ?M ''m'' 0 1024 30
             (None :: unit on_chunk_fn option) ()))
           = mk_message ''system'' ''s'' # map ?f [5..<25]"
    using stream_response_window [of ?M ?api "''m''" 0 1024 30
        "None :: unit on_chunk_fn option" "()"] a b
    unfolding Let_def sys oth
    by (simp add: drop_map)
  have d: "mk_message ''user'' (replicate 4 CHR ''x'')
             \<notin> set (mk_message ''system'' ''s'' # map ?f [5..<25])"
    by (auto simp: mk_message_inject)
  have e: "\<not> list_ex is_system [mk_message ''user'' ''hola'']"
    by (simp add: is_system_mk_message)
  have f: "req_messages (fst (stream_response ?api [mk_message ''user'' ''hola''] ''m'' 0 1024 30
             (None :: unit on_chunk_fn option) ()))
           = [SYSTEM_PROMPT, mk_message ''user'' ''hola'']"
    using stream_response_window [of "[mk_message ''user'' ''hola'']" ?api "''m''" 0 1024 30
        "None :: unit on_chunk_fn option" "()"]
    by (simp add: Let_def is_system_mk_message)
  show ?thesis
    using a b c d e f by simp
qed


section \<open>Properties of stream\_response\<close>

lemma events_Nil: "events ([], out) = []"
  by (simp add: events_def)

lemma events_Yield: "events (Yield ev # acts, out) = ev # events (acts, out)"
  by (simp add: events_def)

lemma events_Call: "events (Call t b m a # acts, out) = events (acts, out)"
  by (simp add: events_def)

lemma events_after: "events (after acts r) = events (acts, Returned) @ events r"
  by (simp add: events_def after_def)

lemma events_outcome: "events (acts, out) = events (acts, Returned)"
  by (simp add: events_def)

lemma snd_after: "snd (after acts r) = snd r"
  by (simp add: after_def)

lemma fst_after: "fst (after acts r) = acts @ fst r"
  by (simp add: after_def)

lemmas events_simps = events_Nil events_Yield events_Call events_after

lemma fragments_simps:
  "fragments [] = []"
  "fragments (NoChoices # xs) = fragments xs"
  "fragments (NoDelta # xs) = fragments xs"
  "fragments (Delta None # xs) = [] # fragments xs"
  "fragments (Delta (Some t) # xs) = t # fragments xs"
  by (simp_all add: fragments_def)

lemma on_error_continues:
  assumes "continues on_chunk"
  shows "events (on_error on_chunk s e) = [error_event e]" and "snd (on_error on_chunk s e) = Returned"
  using assms
  by (auto simp: on_error_def continues_def error_event_def events_simps Let_def
      split: option.splits sum.splits)

lemma emit_rest_continues:
  assumes "continues on_chunk"
  shows "events (emit_rest on_chunk s buffer) = (if buffer = [] then [] else [final (concat buffer)])"
    and "snd (emit_rest on_chunk s buffer) = Returned"
proof -
  have "events (emit_rest on_chunk s buffer) = (if buffer = [] then [] else [final (concat buffer)])
        \<and> snd (emit_rest on_chunk s buffer) = Returned"
  proof (cases on_chunk)
    case None
    then show ?thesis by (simp add: emit_rest_def final_def events_simps Let_def)
  next
    case (Some f)
    have "fst (f s (concat buffer) True None) = Inr True"
      using assms Some by (simp add: continues_def)
    then obtain s' where "f s (concat buffer) True None = (Inr True, s')"
      by (cases "f s (concat buffer) True None") auto
    then show ?thesis
      using Some by (simp add: emit_rest_def final_def events_simps Let_def)
  qed
  then show "events (emit_rest on_chunk s buffer) = (if buffer = [] then [] else [final (concat buffer)])"
    and "snd (emit_rest on_chunk s buffer) = Returned" by simp_all
qed

lemma stream_loop_continues:
  assumes "continues on_chunk"
  shows "events (stream_loop chunk_size on_chunk s buffer word_count xs fail) =
           map (\<lambda>g. non_final (concat g)) (fst (grouping chunk_size buffer word_count (fragments xs)))
           @ tail_events fail (snd (grouping chunk_size buffer word_count (fragments xs)))
         \<and> snd (stream_loop chunk_size on_chunk s buffer word_count xs fail) = Returned"
proof (induction xs arbitrary: s buffer word_count)
  case Nil
  show ?case
    using assms
    by (simp add: fragments_simps tail_events_def on_error_continues emit_rest_continues
        split: option.splits)
next
  case (Cons x xs)
  show ?case
  proof (cases x)
    case NoChoices
    then show ?thesis using Cons.IH by (simp add: fragments_simps)
  next
    case NoDelta
    then show ?thesis using Cons.IH by (simp add: fragments_simps)
  next
    case (Delta c)
    define content where "content = (case c of None \<Rightarrow> [] | Some t \<Rightarrow> t)"
    have fr: "fragments (Delta c # xs) = content # fragments xs"
      by (cases c) (simp_all add: content_def fragments_simps)
    show ?thesis
    proof (cases "word_count + int (length (str_split content)) \<ge> chunk_size")
      case False
      then show ?thesis
        using Cons.IH [of s "buffer @ [content]" "word_count + int (length (str_split content))"]
        by (simp add: Delta fr content_def [symmetric] Let_def)
    next
      case True
      show ?thesis
      proof (cases on_chunk)
        case None
        then show ?thesis
          using True Cons.IH [of s "[]" 0]
          by (simp add: Delta fr content_def [symmetric] Let_def events_simps snd_after
              non_final_def split: prod.splits)
      next
        case (Some f)
        have "fst (f s (concat (buffer @ [content])) False None) = Inr True"
          using assms Some by (simp add: continues_def)
        then obtain s' where f: "f s (concat (buffer @ [content])) False None = (Inr True, s')"
          by (cases "f s (concat (buffer @ [content])) False None") auto
        show ?thesis
          using True Some f Cons.IH [of s' "[]" 0]
          by (simp add: Delta fr content_def [symmetric] Let_def events_simps snd_after
              non_final_def split: prod.splits)
      qed
    qed
  qed
qed

lemma grouping_concat:
  "concat (fst (grouping C buffer wc fs)) @ snd (grouping C buffer wc fs) = buffer @ fs"
  by (induction fs arbitrary: buffer wc) (auto split: prod.splits)


lemma word_total_simps:
  "word_total [] = 0"
  "word_total (f # fs) = int (length (str_split f)) + word_total fs"
  by (simp_all add: word_total_def)

lemma word_total_nonneg: "0 \<le> word_total fs"
  by (induction fs) (simp_all add: word_total_simps)

lemma grouping_count_le:
  "0 \<le> wc \<Longrightarrow> int (length (fst (grouping C buffer wc fs))) * C \<le> wc + word_total fs"
proof (induction fs arbitrary: buffer wc)
  case Nil
  then show ?case by (simp add: word_total_simps)
next
  case (Cons f fs)
  show ?case
  proof (cases "wc + int (length (str_split f)) \<ge> C")
    case True
    have "int (length (fst (grouping C [] 0 fs))) * C \<le> 0 + word_total fs"
      by (rule Cons.IH) simp
    then show ?thesis
      using True by (simp add: word_total_simps algebra_simps split: prod.splits)
  next
    case False
    have "int (length (fst (grouping C (buffer @ [f]) (wc + int (length (str_split f))) fs))) * C
            \<le> (wc + int (length (str_split f))) + word_total fs"
      using Cons.prems by (intro Cons.IH) simp
    then show ?thesis
      using False by (simp add: word_total_simps)
  qed
qed

lemma grouping_count_exact:
  "0 \<le> wc \<Longrightarrow> wc < C \<Longrightarrow> \<forall>f\<in>set fs. length (str_split f) \<le> 1 \<Longrightarrow>
   int (length (fst (grouping C buffer wc fs))) = (wc + word_total fs) div C"
proof (induction fs arbitrary: buffer wc)
  case Nil
  then show ?case by (simp add: word_total_simps)
next
  case (Cons f fs)
  have small: "length (str_split f) \<le> 1" and rest: "\<forall>f\<in>set fs. length (str_split f) \<le> 1"
    using Cons.prems by simp_all
  have pos: "0 < C" using Cons.prems by simp
  show ?case
  proof (cases "wc + int (length (str_split f)) \<ge> C")
    case True
    then have eq: "wc + int (length (str_split f)) = C"
      using Cons.prems(2) small by linarith
    have "int (length (fst (grouping C [] 0 fs))) = (0 + word_total fs) div C"
      using pos rest by (intro Cons.IH) simp_all
    moreover have "(wc + word_total (f # fs)) div C = 1 + word_total fs div C"
    proof -
      have "wc + word_total (f # fs) = C + word_total fs"
        using eq by (simp add: word_total_simps)
      then show ?thesis using pos by simp
    qed
    ultimately show ?thesis
      using True by (simp split: prod.splits)
  next
    case False
    have "int (length (fst (grouping C (buffer @ [f]) (wc + int (length (str_split f))) fs)))
            = ((wc + int (length (str_split f))) + word_total fs) div C"
      using Cons.prems(1) False rest by (intro Cons.IH) simp_all
    then show ?thesis
      using False by (simp add: word_total_simps add.assoc)
  qed
qed

lemma finished_simps:
  "finished (non_final t) = False" "finished (final t) = True" "finished (error_event e) = True"
  "chunk (non_final t) = t" "chunk (final t) = t" "chunk (error_event e) = []"
  "error (non_final t) = None" "error (final t) = None"
  "error (error_event e) = Some (error_prefix @ e)"
  by (simp_all add: non_final_def final_def error_event_def)





lemma answers_simps:
  "answers [] = []"
  "answers (Yield ev # acts) = answers acts"
  "answers (Call t b m a # acts) = a # answers acts"
  "answers (xs @ ys) = answers xs @ answers ys"
  by (simp_all add: answers_def)

lemma emit_rest_Nil: "emit_rest on_chunk s [] = ([], Returned)"
  by (simp add: emit_rest_def)

lemma on_error_orderly: "orderly (fst (on_error (Some f) s e))"
  by (simp add: on_error_def Let_def split: sum.splits)

lemma emit_rest_orderly: "orderly (fst (emit_rest (Some f) s buffer))"
  by (simp add: emit_rest_def Let_def fst_after on_error_orderly split: sum.splits prod.splits)

lemma stream_loop_orderly:
  "orderly (fst (stream_loop chunk_size (Some f) s buffer word_count xs fail))"
proof (induction xs arbitrary: s buffer word_count)
  case Nil
  show ?case
    by (simp add: on_error_orderly emit_rest_orderly split: option.splits)
next
  case (Cons x xs)
  show ?case
  proof (cases x)
    case (Delta c)
    then show ?thesis
      using Cons.IH
      by (simp add: Let_def fst_after on_error_orderly emit_rest_Nil
          split: sum.splits prod.splits)
  qed (use Cons.IH in simp_all)
qed

lemma stream_loop_no_callback:
  "answers (fst (stream_loop chunk_size None s buffer word_count xs fail)) = []"
proof (induction xs arbitrary: s buffer word_count)
  case Nil
  show ?case
    by (simp add: on_error_def emit_rest_def Let_def answers_simps split: option.splits)
next
  case (Cons x xs)
  show ?case
  proof (cases x)
    case (Delta c)
    then show ?thesis
      using Cons.IH by (simp add: Let_def fst_after answers_simps)
  qed (use Cons.IH in simp_all)
qed

lemma orderly_stop:
  "orderly (pre @ Call t b m (Inr False) # post) \<Longrightarrow>
   post = [] \<and> length (events (pre, Returned)) = Suc (length (answers pre))"
proof (induction pre rule: induct_list012)
  case 1
  then show ?case by simp
next
  case (2 x)
  then show ?case by (cases x) (simp_all add: events_simps answers_simps)
next
  case (3 x y zs)
  then show ?case by (cases x; cases y) (auto simp: events_simps answers_simps)
qed




lemma run_of_stream_response:
  "api (fst (stream_response api messages model temperature max_tokens chunk_size on_chunk s))
     = \<lparr>items = xs, failure = fail\<rparr> \<Longrightarrow>
   snd (stream_response api messages model temperature max_tokens chunk_size on_chunk s)
     = stream_loop chunk_size on_chunk s [] 0 xs fail"
  by (simp add: stream_response_def Let_def)

lemma concat_groups:
  "concat (map (\<lambda>g. concat g) gs) @ concat rest = concat (concat gs @ rest)"
  by (induction gs) simp_all

lemma fragments_replicate: "fragments (replicate n (Delta (Some t))) = replicate n t"
  by (induction n) (simp_all add: fragments_simps)

lemma word_total_replicate: "word_total (replicate n t) = int n * int (length (str_split t))"
  by (induction n) (simp_all add: word_total_simps algebra_simps)

lemma str_split_a: "str_split ''a '' = [''a'']"
  by (simp add: str_split_def isspace_def)

lemma events_of_run: "events r = events (fst r, Returned)"
  by (simp add: events_def)



text \<open>
  C2, as amended. Take a chunk size \<open>C > 0\<close>, a stream that ends without an API error and
  a callback that lets the loop run to its end. The texts of the emitted events, joined in
  order, are the received fragments joined in order. The streamer counts words fragment
  by fragment: with \<open>S\<close> the sum of the word counts of the fragments, the number \<open>N\<close> of
  non-final events satisfies \<open>N * C \<le> S\<close>, and \<open>N = S div C\<close> when no fragment holds more
  than one word.
\<close>

theorem chunking_round_trip:
  assumes "api (fst (stream_response api messages model temperature max_tokens chunk_size on_chunk s))
             = \<lparr>items = xs, failure = None\<rparr>"
    and "continues on_chunk" and "0 < chunk_size"
  shows "let evs = events (snd (stream_response api messages model temperature max_tokens
                     chunk_size on_chunk s));
             n = int (length (filter (\<lambda>ev. \<not> finished ev) evs))
         in concat (map chunk evs) = concat (fragments xs) \<and>
            n * chunk_size \<le> word_total (fragments xs) \<and>
            ((\<forall>f\<in>set (fragments xs). length (str_split f) \<le> 1) \<longrightarrow>
               n = word_total (fragments xs) div chunk_size)"
proof -
  define gs where "gs = fst (grouping chunk_size [] 0 (fragments xs))"
  define rest where "rest = snd (grouping chunk_size [] 0 (fragments xs))"
  define evs where "evs = events (snd (stream_response api messages model temperature max_tokens
                     chunk_size on_chunk s))"
  have r: "snd (stream_response api messages model temperature max_tokens chunk_size on_chunk s)
             = stream_loop chunk_size on_chunk s [] 0 xs None"
    using assms(1) by (rule run_of_stream_response)
  have evs: "evs = map (\<lambda>g. non_final (concat g)) gs
                     @ (if rest = [] then [] else [final (concat rest)])"
    using stream_loop_continues [OF assms(2), of chunk_size s "[]" 0 xs None]
    by (simp add: evs_def r gs_def rest_def tail_events_def)
  have split: "concat gs @ rest = fragments xs"
    using grouping_concat [of chunk_size "[]" 0 "fragments xs"] by (simp add: gs_def rest_def)
  have texts: "map chunk evs = map concat gs @ (if rest = [] then [] else [concat rest])"
    by (simp add: evs finished_simps comp_def)
  have "concat (map chunk evs) = concat (map concat gs) @ concat rest"
    by (simp add: texts)
  also have "\<dots> = concat (concat gs @ rest)"
    by (rule concat_groups)
  finally have round: "concat (map chunk evs) = concat (fragments xs)"
    by (simp add: split)
  have nf: "filter (\<lambda>ev. \<not> finished ev) evs = map (\<lambda>g. non_final (concat g)) gs"
    by (simp add: evs finished_simps filter_map comp_def)
  have n: "int (length (filter (\<lambda>ev. \<not> finished ev) evs)) = int (length gs)"
    by (simp add: nf)
  have le: "int (length gs) * chunk_size \<le> word_total (fragments xs)"
    using grouping_count_le [of 0 chunk_size "[]" "fragments xs"] by (simp add: gs_def)
  have exact: "int (length gs) = word_total (fragments xs) div chunk_size"
    if "\<forall>f\<in>set (fragments xs). length (str_split f) \<le> 1"
    using grouping_count_exact [of 0 chunk_size "fragments xs" "[]"] assms(3) that
    by (simp add: gs_def)
  show ?thesis
    unfolding Let_def evs_def [symmetric] n using round le exact by blast
qed

text \<open>
  The scenario of the specification: 31 fragments \<open>''a ''\<close> with chunk size 30 give one
  non-final event with the first 30 and a final event with the last one.
\<close>

theorem chunking_round_trip_witness:
  "replies \<lparr>items = replicate 31 (Delta (Some ''a '')), failure = None\<rparr>
     (fst (stream_response (replies \<lparr>items = replicate 31 (Delta (Some ''a '')), failure = None\<rparr>)
            [] ''m'' 0 1024 30 (None :: unit on_chunk_fn option) ()))
     = \<lparr>items = replicate 31 (Delta (Some ''a '')), failure = None\<rparr> \<and>
   continues (None :: unit on_chunk_fn option) \<and> (0::int) < 30 \<and>
   list_all (\<lambda>f. length (str_split f) \<le> 1) (fragments (replicate 31 (Delta (Some ''a '')))) \<and>
   events (snd (stream_response (replies \<lparr>items = replicate 31 (Delta (Some ''a '')), failure = None\<rparr>)
            [] ''m'' 0 1024 30 (None :: unit on_chunk_fn option) ()))
     = [non_final (concat (replicate 30 ''a '')), final ''a ''] \<and>
   concat (map chunk (events (snd (stream_response
       (replies \<lparr>items = replicate 31 (Delta (Some ''a '')), failure = None\<rparr>)
       [] ''m'' 0 1024 30 (None :: unit on_chunk_fn option) ()))))
     = concat (replicate 31 ''a '') \<and>
   int (length (filter (\<lambda>ev. \<not> finished ev) (events (snd (stream_response
       (replies \<lparr>items = replicate 31 (Delta (Some ''a '')), failure = None\<rparr>)
       [] ''m'' 0 1024 30 (None :: unit on_chunk_fn option) ())))))
     = 31 div 30"
proof -
  let ?xs = "replicate 31 (Delta (Some ''a ''))"
  let ?api = "replies \<lparr>items = ?xs, failure = None\<rparr>"
  let ?r = "snd (stream_response ?api [] ''m'' 0 1024 30 (None :: unit on_chunk_fn option) ())"
  have h: "?api (fst (stream_response ?api [] ''m'' 0 1024 30 (None :: unit on_chunk_fn option) ()))
             = \<lparr>items = ?xs, failure = None\<rparr>"
    by (simp add: replies_def)
  have c: "continues (None :: unit on_chunk_fn option)"
    by (simp add: continues_def)
  have p: "(0::int) < 30" by simp
  have w: "list_all (\<lambda>f. length (str_split f) \<le> 1) (fragments ?xs)"
    by (simp add: fragments_replicate str_split_a list_all_iff)
  have e: "events ?r = [non_final (concat (replicate 30 ''a '')), final ''a '']"
    by (simp add: stream_response_def replies_def Let_def emit_rest_def events_simps str_split_a
        non_final_def final_def eval_nat_numeral)
  note t = chunking_round_trip [of ?api "[]" "''m''" 0 1024 30 "None :: unit on_chunk_fn option" "()"
      ?xs, OF h c p, unfolded Let_def]
  have rt: "concat (map chunk (events ?r)) = concat (replicate 31 ''a '')"
    using t by (simp add: fragments_replicate)
  have cnt: "int (length (filter (\<lambda>ev. \<not> finished ev) (events ?r))) = 31 div 30"
    using t w by (simp add: fragments_replicate word_total_replicate str_split_a list_all_iff)
  from h c p w e rt cnt show ?thesis by blast
qed

text \<open>
  C2 as stated fails: the single fragment \<open>''a b c''\<close> has three words, and with chunk size
  1 it is emitted as one non-final event, with no final event, where \<open>ceil(3/1) = 3\<close>.
\<close>

theorem chunk_count_counterexample:
  "length (str_split (concat (fragments [Delta (Some ''a b c'')]))) = 3 \<and>
   events (snd (stream_response (replies \<lparr>items = [Delta (Some ''a b c'')], failure = None\<rparr>)
            [] ''m'' 0 1024 1 (None :: unit on_chunk_fn option) ()))
     = [non_final ''a b c''] \<and>
   int (length (filter (\<lambda>ev. \<not> finished ev)
      (events (snd (stream_response (replies \<lparr>items = [Delta (Some ''a b c'')], failure = None\<rparr>)
            [] ''m'' 0 1024 1 (None :: unit on_chunk_fn option) ())))))
     \<noteq> \<lceil>real 3 / real_of_int 1\<rceil>"
  by (simp add: stream_response_def replies_def Let_def emit_rest_def events_simps str_split_def
      isspace_def non_final_def fragments_simps)



text \<open>
  C7. When a call of \<open>on_chunk\<close> answers \<open>False\<close>, the run does nothing after it: the events
  of the run are those yielded before that call, as many as the calls made up to it. So
  an answer \<open>False\<close> to the second call leaves exactly two events.
\<close>

theorem on_chunk_false_stops:
  assumes "fst (snd (stream_response api messages model temperature max_tokens chunk_size on_chunk s))
             = pre @ Call text fin meta (Inr False) # post"
  shows "post = [] \<and>
         events (snd (stream_response api messages model temperature max_tokens chunk_size on_chunk s))
           = events (pre, Returned) \<and>
         length (events (pre, Returned)) = Suc (length (answers pre))"
proof -
  define r where "r = snd (stream_response api messages model temperature max_tokens chunk_size on_chunk s)"
  define req where "req = fst (stream_response api messages model temperature max_tokens chunk_size on_chunk s)"
  have r: "r = stream_loop chunk_size on_chunk s [] 0 (items (api req)) (failure (api req))"
    by (simp add: r_def req_def stream_response_def Let_def)
  have tr: "fst r = pre @ Call text fin meta (Inr False) # post"
    using assms by (simp add: r_def)
  obtain f where f: "on_chunk = Some f"
  proof (cases on_chunk)
    case None
    then have "answers (fst r) = []"
      by (simp add: r stream_loop_no_callback)
    then show ?thesis by (simp add: tr answers_simps)
  qed
  have "orderly (fst r)"
    unfolding r f by (rule stream_loop_orderly)
  then have stop: "post = [] \<and> length (events (pre, Returned)) = Suc (length (answers pre))"
    unfolding tr by (rule orderly_stop)
  have "events r = events (pre @ [Call text fin meta (Inr False)], Returned)"
    using events_of_run [of r] tr stop by simp
  also have "\<dots> = events (pre, Returned)"
    by (simp add: events_def)
  finally show ?thesis
    using stop by (simp add: r_def)
qed

theorem on_chunk_false_stops_witness:
  "fst (snd (stream_response (replies \<lparr>items = replicate 5 (Delta (Some ''a '')), failure = None\<rparr>)
         [] ''m'' 0 1024 1 (Some (\<lambda>n text fin meta. (Inr (n \<noteq> 1), n + 1))) (0::nat)))
     = [Yield (non_final ''a ''), Call ''a '' False None (Inr True), Yield (non_final ''a '')]
       @ Call ''a '' False None (Inr False) # [] \<and>
   events (snd (stream_response (replies \<lparr>items = replicate 5 (Delta (Some ''a '')), failure = None\<rparr>)
         [] ''m'' 0 1024 1 (Some (\<lambda>n text fin meta. (Inr (n \<noteq> 1), n + 1))) (0::nat)))
     = [non_final ''a '', non_final ''a ''] \<and>
   answers [Yield (non_final ''a ''), Call ''a '' False None (Inr True), Yield (non_final ''a '')]
     = [Inr True]"
proof -
  let ?api = "replies \<lparr>items = replicate 5 (Delta (Some ''a '')), failure = None\<rparr>"
  let ?f = "\<lambda>n text fin meta. (Inr (n \<noteq> 1) :: string + bool, n + (1::nat))"
  let ?pre = "[Yield (non_final ''a ''), Call ''a '' False None (Inr True), Yield (non_final ''a '')]"
  have h: "fst (snd (stream_response ?api [] ''m'' 0 1024 1 (Some ?f) 0))
             = ?pre @ Call ''a '' False None (Inr False) # []"
    by (simp add: stream_response_def replies_def Let_def emit_rest_def after_def str_split_def
        isspace_def non_final_def eval_nat_numeral)
  have "events (snd (stream_response ?api [] ''m'' 0 1024 1 (Some ?f) 0)) = events (?pre, Returned)"
    using on_chunk_false_stops [OF h] by simp
  then have e: "events (snd (stream_response ?api [] ''m'' 0 1024 1 (Some ?f) 0))
                  = [non_final ''a '', non_final ''a '']"
    by (simp add: events_simps)
  have a: "answers ?pre = [Inr True]"
    by (simp add: answers_simps)
  from h e a show ?thesis by blast
qed

section \<open>Properties of the message store\<close>






lemma length_lower: "length (lower s) = length s"
  by (simp add: lower_def)

lemma lower_char_NUL: "lower_char c = CHR 0x00 \<longleftrightarrow> c = CHR 0x00"
proof
  assume a: "lower_char c = CHR 0x00"
  show "c = CHR 0x00"
  proof (rule ccontr)
    assume c: "c \<noteq> CHR 0x00"
    have "(of_char (lower_char c) :: nat) \<noteq> 0"
    proof (cases "lower_char c = c")
      case True
      with a c show ?thesis by simp
    next
      case False
      then have "lower_char c = char_of ((of_char c :: nat) + 32)"
        and "(of_char c :: nat) \<le> 222"
        by (auto simp: lower_char_def Let_def split: if_splits)
      then show ?thesis by simp
    qed
    with a show False by simp
  qed
next
  assume "c = CHR 0x00"
  then show "lower_char c = CHR 0x00"
    by (simp add: lower_char_def)
qed

lemma lower_NUL: "CHR 0x00 \<in> set (lower s) \<longleftrightarrow> CHR 0x00 \<in> set s"
proof
  assume "CHR 0x00 \<in> set (lower s)"
  then obtain c where "c \<in> set s" and "lower_char c = CHR 0x00"
    by (force simp: lower_def)
  then show "CHR 0x00 \<in> set s"
    by (simp add: lower_char_NUL)
next
  assume "CHR 0x00 \<in> set s"
  then have "lower_char CHR 0x00 \<in> set (lower s)"
    by (simp add: lower_def)
  then show "CHR 0x00 \<in> set (lower s)"
    by (simp add: lower_char_def)
qed



lemma varchar_fits: "length s \<le> n \<Longrightarrow> varchar n s = Some s"
  by (simp add: varchar_def)

lemma varchar_Some: "varchar n s = Some t \<Longrightarrow> t = take n s"
  by (simp add: varchar_def split: if_splits)

lemma add_message_stores:
  assumes "role \<noteq> []" and "content \<noteq> []" and "length role \<le> 20"
    and "CHR 0x00 \<notin> set role" and "CHR 0x00 \<notin> set content"
  shows "add_message db now None role content
         = (Inr \<lparr>d_id = next_id db, d_role = lower role, d_content = content,
                 d_created_at = Some now\<rparr>,
            db\<lparr>rows := rows db @ [\<lparr>m_id = next_id db, m_role = lower role,
                                     m_content = content, m_created_at = now\<rparr>],
               next_id := next_id db + 1\<rparr>)"
  using assms
  by (simp add: add_message_def Let_def to_dict_def lower_NUL varchar_fits length_lower)

lemma add_message_cases:
  "snd (add_message db now fault role content) = db \<or>
   snd (add_message db now fault role content)
     = db\<lparr>rows := rows db @ [\<lparr>m_id = next_id db, m_role = take 20 (lower role),
                              m_content = content, m_created_at = now\<rparr>],
          next_id := next_id db + 1\<rparr>"
  by (auto simp: add_message_def Let_def split: option.splits dest: varchar_Some)









lemma set_matching_subset: "set (matching ilike db search role cc) \<subseteq> set (rows db)"
  by (auto simp: matching_def Let_def split: option.splits if_splits)


lemma set_order_desc: "set (order_by_created_at_desc ms) = set ms"
  by (simp add: order_by_created_at_desc_def)

lemma length_order_desc: "length (order_by_created_at_desc ms) = length ms"
  by (simp add: order_by_created_at_desc_def)



lemma get_all_messages_ok:
  "get_all_messages ilike db None limit offset search role cc
     = Inr (map to_dict (take (effective_limit limit)
              (drop offset (order_by_created_at_desc (matching ilike db search role cc)))),
            length (matching ilike db search role cc))"
  by (simp add: get_all_messages_def Let_def)

lemma matching_all: "matching ilike db None None False = rows db"
  by (simp add: matching_def)







text \<open>
  C10. When the database raises nothing, \<open>get_all_messages\<close> returns a page and the number
  of rows that pass its filters; the page has as many messages as that number leaves
  after the offset, but at most 100 when \<open>limit\<close> is \<open>None\<close>, zero or negative, and at
  most \<open>limit\<close> when it is positive.
\<close>

theorem default_page_size:
  "fault = None \<longrightarrow>
     (\<exists>page n.
        get_all_messages ilike db fault limit offset search role cc = Inr (page, n) \<and>
        n = length (matching ilike db search role cc) \<and>
        length page = min (case limit of None \<Rightarrow> 100 | Some l \<Rightarrow> if l \<le> 0 then 100 else nat l)
                          (n - offset) \<and>
        (limit = None \<or> (\<exists>l. limit = Some l \<and> l \<le> 0) \<longrightarrow> length page \<le> 100) \<and>
        (\<forall>l. limit = Some l \<and> 0 < l \<longrightarrow> length page \<le> nat l))"
  by (auto simp: get_all_messages_ok effective_limit_def length_order_desc split: option.splits)

theorem default_page_size_witness:
  "(None :: string option) = None \<and>
   (case get_all_messages (\<lambda>p t. True)
           \<lparr>rows = map (\<lambda>i. \<lparr>m_id = int i + 1, m_role = ''user'', m_content = ''x'',
                                m_created_at = int i\<rparr>) [0..<101], next_id = 102\<rparr>
           None None 0 None None False of
      Inr (page, n) \<Rightarrow> n = 101 \<and> length page = 100
    | Inl err \<Rightarrow> False) \<and>
   (case get_all_messages (\<lambda>p t. True)
           \<lparr>rows = map (\<lambda>i. \<lparr>m_id = int i + 1, m_role = ''user'', m_content = ''x'',
                                m_created_at = int i\<rparr>) [0..<101], next_id = 102\<rparr>
           None (Some (- 5)) 0 None None False of
      Inr (page, n) \<Rightarrow> n = 101 \<and> length page = 100
    | Inl err \<Rightarrow> False) \<and>
   (case get_all_messages (\<lambda>p t. True)
           \<lparr>rows = map (\<lambda>i. \<lparr>m_id = int i + 1, m_role = ''user'', m_content = ''x'',
                                m_created_at = int i\<rparr>) [0..<101], next_id = 102\<rparr>
           None (Some 7) 0 None None False of
      Inr (page, n) \<Rightarrow> n = 101 \<and> length page = 7
    | Inl err \<Rightarrow> False)"
proof -
  let ?db = "\<lparr>rows = map (\<lambda>i. \<lparr>m_id = int i + 1, m_role = ''user'', m_content = ''x'',
                                m_created_at = int i\<rparr>) [0..<101], next_id = 102\<rparr>"
  have total: "length (matching (\<lambda>p t. True) ?db None None False) = 101"
    by (simp add: matching_all)
  have a: "case get_all_messages (\<lambda>p t. True) ?db None limit 0 None None False of
             Inr (page, n) \<Rightarrow> n = 101 \<and> length page = k
           | Inl err \<Rightarrow> False"
    if "min (case limit of None \<Rightarrow> 100 | Some l \<Rightarrow> if l \<le> 0 then 100 else nat l) (101::nat) = k"
    for limit k
  proof -
    obtain page n where
      "get_all_messages (\<lambda>p t. True) ?db None limit 0 None None False = Inr (page, n)"
      "n = length (matching (\<lambda>p t. True) ?db None None False)"
      "length page = min (case limit of None \<Rightarrow> 100 | Some l \<Rightarrow> if l \<le> 0 then 100 else nat l)
                         (n - 0)"
      using default_page_size [where fault = None and ilike = "\<lambda>p t. True" and db = ?db
          and limit = limit and offset = 0 and search = None and role = None and cc = False]
      by blast
    then show ?thesis
      using total that by simp
  qed
  have "(None :: string option) = None" by simp
  with a [of None 100] a [of "Some (- 5)" 100] a [of "Some 7" 7] show ?thesis
    by simp
qed

lemma sorted_le_last: "sorted (map f ys) \<Longrightarrow> y \<in> set ys \<Longrightarrow> f y \<le> f (last ys)"
  by (induction ys) auto

lemma last_separator_latest:
  assumes "s \<in> set (rows db)" and "is_separator s"
  shows "\<exists>top\<in>set (rows db). is_separator top \<and> last_separator db = Some (m_id top) \<and>
           m_created_at s \<le> m_created_at top"
proof -
  define ys where "ys = sort_key m_created_at (filter is_separator (rows db))"
  have mem: "s \<in> set ys"
    using assms by (simp add: ys_def)
  then have ne: "ys \<noteq> []" by auto
  have top: "last ys \<in> set ys"
    using ne by simp
  have "(case rev ys of [] \<Rightarrow> None | msg # _ \<Rightarrow> Some (m_id msg)) = Some (m_id (last ys))"
    using ne by (cases ys rule: rev_cases) simp_all
  then have "last_separator db = Some (m_id (last ys))"
    by (simp add: last_separator_def order_by_created_at_desc_def ys_def [symmetric])
  moreover have "m_created_at s \<le> m_created_at (last ys)"
    using mem by (intro sorted_le_last) (simp_all add: ys_def)
  moreover have "last ys \<in> set (rows db)" "is_separator (last ys)"
    using top by (simp_all add: ys_def)
  ultimately show ?thesis by blast
qed

lemma matching_filter:
  "matching ilike db search role True =
     filter (\<lambda>msg.
        (case last_separator db of Some c \<Rightarrow> c \<noteq> 0 \<longrightarrow> c \<le> m_id msg | None \<Rightarrow> True) \<and>
        (case search of Some t \<Rightarrow> t \<noteq> [] \<longrightarrow> ilike (''%'' @ t @ ''%'') (m_content msg)
                      | None \<Rightarrow> True) \<and>
        (case role of Some r \<Rightarrow> r \<noteq> [] \<longrightarrow> m_role msg = lower r | None \<Rightarrow> True))
       (rows db)"
  by (auto simp: matching_def Let_def split: option.splits intro: filter_cong)

lemma scoped_matching:
  assumes "scoped sid now db" and "0 < sid" and "r \<in> set (matching ilike db search role True)"
  shows "sid \<le> m_id r"
proof (rule ccontr)
  assume "\<not> sid \<le> m_id r"
  then have old: "m_id r < sid" by simp
  have r: "r \<in> set (rows db)"
    using assms(3) set_matching_subset by blast
  with old assms(1) obtain s where s: "s \<in> set (rows db)" "is_separator s" "now \<le> m_created_at s"
    unfolding scoped_def by blast
  from last_separator_latest [OF s(1,2)] obtain top
    where top: "top \<in> set (rows db)" "is_separator top" "last_separator db = Some (m_id top)"
      "m_created_at s \<le> m_created_at top"
    by blast
  have "\<not> m_id top < sid"
    using assms(1) top(1,2,4) s(3) unfolding scoped_def by fastforce
  then have big: "sid \<le> m_id top" by simp
  then have "m_id top \<noteq> 0" using assms(2) by simp
  then have "m_id top \<le> m_id r"
    using assms(3) top(3) by (simp add: matching_filter)
  with big old show False by simp
qed

lemma scoped_apply_op: "scoped sid now db \<Longrightarrow> scoped sid now (apply_op db op)"
proof (cases op)
  case (AddMessage t fault role content)
  assume a: "scoped sid now db"
  from add_message_cases [of db t fault role content]
  show ?thesis
  proof
    assume "snd (add_message db t fault role content) = db"
    with a show ?thesis by (simp add: AddMessage)
  next
    assume "snd (add_message db t fault role content)
              = db\<lparr>rows := rows db @ [\<lparr>m_id = next_id db, m_role = take 20 (lower role),
                   m_content = content, m_created_at = t\<rparr>], next_id := next_id db + 1\<rparr>"
    then have "apply_op db op = db\<lparr>rows := rows db @ [\<lparr>m_id = next_id db,
                 m_role = take 20 (lower role), m_content = content, m_created_at = t\<rparr>],
                 next_id := next_id db + 1\<rparr>"
      by (simp add: AddMessage)
    with a show ?thesis
      unfolding scoped_def by auto
  qed
next
  case (GetAllMessages fault limit offset search role cc)
  assume "scoped sid now db"
  then show ?thesis by (simp add: GetAllMessages)
next
  case (ClearChatHistory fault)
  assume "scoped sid now db"
  then show ?thesis
    by (cases fault) (auto simp: ClearChatHistory clear_chat_history_def scoped_def)
next
  case (CreateNewConversation stamp t fault)
  assume a: "scoped sid now db"
  show ?thesis
  proof (cases fault)
    case None
    then have "apply_op db op = db\<lparr>rows := rows db @ [\<lparr>m_id = next_id db, m_role = ''system'',
                 m_content = separator_prefix @ '' INICIADA: '' @ stamp @ '' ---'',
                 m_created_at = t\<rparr>], next_id := next_id db + 1\<rparr>"
      by (simp add: CreateNewConversation create_new_conversation_def Let_def)
    with a show ?thesis
      unfolding scoped_def by auto
  next
    case (Some e)
    then have "apply_op db op = db"
      by (simp add: CreateNewConversation create_new_conversation_def)
    with a show ?thesis by simp
  qed
qed

lemma scoped_foldl: "scoped sid now db \<Longrightarrow> scoped sid now (foldl apply_op db ops)"
  by (induction ops arbitrary: db) (simp_all add: scoped_apply_op)

lemma is_separator_new:
  "is_separator \<lparr>m_id = i, m_role = ''system'',
      m_content = separator_prefix @ '' INICIADA: '' @ stamp @ '' ---'', m_created_at = t\<rparr>"
  by (simp add: is_separator_def startswith_def)

lemma scoped_create:
  assumes "well_formed db0"
    and "\<forall>r\<in>set (rows db0). is_separator r \<longrightarrow> m_created_at r < now"
    and "create_new_conversation db0 stamp now None = (ok, db1)"
  shows "ok" and "scoped (next_id db0) now db1"
    and "rows db1 = rows db0 @ [\<lparr>m_id = next_id db0, m_role = ''system'',
           m_content = separator_prefix @ '' INICIADA: '' @ stamp @ '' ---'', m_created_at = now\<rparr>]"
proof -
  have db1: "db1 = db0\<lparr>rows := rows db0 @ [\<lparr>m_id = next_id db0, m_role = ''system'',
           m_content = separator_prefix @ '' INICIADA: '' @ stamp @ '' ---'', m_created_at = now\<rparr>],
           next_id := next_id db0 + 1\<rparr>" and ok: "ok"
    using assms(3) by (auto simp: create_new_conversation_def Let_def)
  show "ok" by (rule ok)
  show "rows db1 = rows db0 @ [\<lparr>m_id = next_id db0, m_role = ''system'',
           m_content = separator_prefix @ '' INICIADA: '' @ stamp @ '' ---'', m_created_at = now\<rparr>]"
    by (simp add: db1)
  show "scoped (next_id db0) now db1"
    unfolding scoped_def db1 using assms(2) is_separator_new by auto
qed

lemma order_desc_sorted:
  "sorted_wrt (\<lambda>a b. m_created_at b \<le> m_created_at a) (order_by_created_at_desc ms)"
proof -
  have "sorted (map m_created_at (sort_key m_created_at ms))"
    by simp
  then have "sorted_wrt (\<lambda>a b. m_created_at a \<le> m_created_at b) (sort_key m_created_at ms)"
    by (simp add: sorted_wrt_map)
  then show ?thesis
    by (simp add: order_by_created_at_desc_def sorted_wrt_rev)
qed

text \<open>
  C6, as amended. Let \<open>create_new_conversation\<close> store a separator in a well-formed table
  at a time later than that of every separator already there, and let any operations of
  the store follow. A query with \<open>current_conversation_only = True\<close> then returns only
  messages whose id is at least the id of that separator: the separator itself and what
  was appended after it, and no row that was in the table before. The page is a run of
  rows in descending order of \<open>created_at\<close>, and the total is the number of rows of the
  table that pass the filters of the query, whatever the offset and the limit.
\<close>

theorem current_conversation_scope:
  assumes "well_formed db0"
    and "\<forall>r\<in>set (rows db0). is_separator r \<longrightarrow> m_created_at r < now"
    and "create_new_conversation db0 stamp now None = (ok, db1)"
    and "get_all_messages ilike (foldl apply_op db1 ops) fault limit offset search role True
           = Inr (page, n)"
  shows "ok \<and>
         (\<exists>sep\<in>set (rows db1). is_separator sep \<and> m_id sep = next_id db0 \<and> m_created_at sep = now) \<and>
         (\<forall>m\<in>set page. next_id db0 \<le> d_id m) \<and>
         (\<forall>r\<in>set (rows db0). to_dict r \<notin> set page) \<and>
         (\<exists>rs. page = map to_dict rs \<and>
               sorted_wrt (\<lambda>a b. m_created_at b \<le> m_created_at a) rs) \<and>
         n = length (filter (\<lambda>msg.
               (case last_separator (foldl apply_op db1 ops) of
                  Some c \<Rightarrow> c \<noteq> 0 \<longrightarrow> c \<le> m_id msg | None \<Rightarrow> True) \<and>
               (case search of
                  Some t \<Rightarrow> t \<noteq> [] \<longrightarrow> ilike (''%'' @ t @ ''%'') (m_content msg) | None \<Rightarrow> True) \<and>
               (case role of Some r \<Rightarrow> r \<noteq> [] \<longrightarrow> m_role msg = lower r | None \<Rightarrow> True))
             (rows (foldl apply_op db1 ops))) \<and>
         length page \<le> n"
proof -
  define db2 where "db2 = foldl apply_op db1 ops"
  define q where "q = matching ilike db2 search role True"
  define rs where "rs = take (effective_limit limit) (drop offset (order_by_created_at_desc q))"
  note created = scoped_create [OF assms(1,2,3)]
  have pos: "0 < next_id db0"
    using assms(1) by (simp add: well_formed_def)
  have sc: "scoped (next_id db0) now db2"
    unfolding db2_def using created(2) by (rule scoped_foldl)
  have res: "page = map to_dict rs" "n = length q"
    using assms(4) by (simp_all add: get_all_messages_def Let_def db2_def q_def rs_def
        split: option.splits)
  have sub: "set rs \<subseteq> set q"
  proof -
    have "set rs \<subseteq> set (drop offset (order_by_created_at_desc q))"
      unfolding rs_def by (rule set_take_subset)
    also have "\<dots> \<subseteq> set (order_by_created_at_desc q)"
      by (rule set_drop_subset)
    finally show ?thesis by (simp add: set_order_desc)
  qed
  have ids: "next_id db0 \<le> d_id m" if "m \<in> set page" for m
  proof -
    from that obtain r where r: "r \<in> set rs" "m = to_dict r"
      by (auto simp: res(1))
    then have "r \<in> set (matching ilike db2 search role True)"
      using sub by (auto simp: q_def)
    then have "next_id db0 \<le> m_id r"
      using sc pos by (intro scoped_matching)
    then show ?thesis by (simp add: r(2) to_dict_def)
  qed
  have excl: "to_dict r \<notin> set page" if "r \<in> set (rows db0)" for r
  proof
    assume "to_dict r \<in> set page"
    then have "next_id db0 \<le> d_id (to_dict r)" by (rule ids)
    moreover have "m_id r < next_id db0"
      using assms(1) that by (simp add: well_formed_def list_all_iff)
    ultimately show False by (simp add: to_dict_def)
  qed
  have sep: "\<exists>sep\<in>set (rows db1). is_separator sep \<and> m_id sep = next_id db0 \<and> m_created_at sep = now"
    using created(3) is_separator_new by auto
  have sorted: "sorted_wrt (\<lambda>a b. m_created_at b \<le> m_created_at a) rs"
    unfolding rs_def by (intro sorted_wrt_take sorted_wrt_drop order_desc_sorted)
  have count: "n = length (filter (\<lambda>msg.
               (case last_separator db2 of
                  Some c \<Rightarrow> c \<noteq> 0 \<longrightarrow> c \<le> m_id msg | None \<Rightarrow> True) \<and>
               (case search of
                  Some t \<Rightarrow> t \<noteq> [] \<longrightarrow> ilike (''%'' @ t @ ''%'') (m_content msg) | None \<Rightarrow> True) \<and>
               (case role of Some r \<Rightarrow> r \<noteq> [] \<longrightarrow> m_role msg = lower r | None \<Rightarrow> True))
             (rows db2))"
    by (simp add: res(2) q_def matching_filter)
  have len: "length page \<le> n"
    by (simp add: res rs_def length_order_desc)
  show ?thesis
    unfolding db2_def [symmetric]
    using created(1) sep ids excl res(1) sorted count len by blast
qed

theorem current_conversation_scope_witness:
  "well_formed \<lparr>rows = [\<lparr>m_id = 1, m_role = ''user'', m_content = ''old'', m_created_at = 1\<rparr>],
                 next_id = 2\<rparr> \<and>
   list_all (\<lambda>r. \<not> is_separator r)
     (rows \<lparr>rows = [\<lparr>m_id = 1, m_role = ''user'', m_content = ''old'', m_created_at = 1\<rparr>],
            next_id = 2\<rparr>) \<and>
   create_new_conversation
     \<lparr>rows = [\<lparr>m_id = 1, m_role = ''user'', m_content = ''old'', m_created_at = 1\<rparr>], next_id = 2\<rparr>
     ''t'' 2 None
     = (True,
        \<lparr>rows = [\<lparr>m_id = 1, m_role = ''user'', m_content = ''old'', m_created_at = 1\<rparr>,
                 \<lparr>m_id = 2, m_role = ''system'',
                  m_content = separator_prefix @ '' INICIADA: t ---'',
                  m_created_at = 2\<rparr>],
         next_id = 3\<rparr>) \<and>
   get_all_messages (\<lambda>p t. True)
     (foldl apply_op
        \<lparr>rows = [\<lparr>m_id = 1, m_role = ''user'', m_content = ''old'', m_created_at = 1\<rparr>,
                 \<lparr>m_id = 2, m_role = ''system'',
                  m_content = separator_prefix @ '' INICIADA: t ---'',
                  m_created_at = 2\<rparr>],
         next_id = 3\<rparr>
        [AddMessage 3 None ''user'' ''new''])
     None None 0 None None True
     = Inr ([\<lparr>d_id = 3, d_role = ''user'', d_content = ''new'', d_created_at = Some 3\<rparr>,
             \<lparr>d_id = 2, d_role = ''system'',
              d_content = separator_prefix @ '' INICIADA: t ---'',
              d_created_at = Some 2\<rparr>], 2) \<and>
   list_all (\<lambda>m. 2 \<le> d_id m)
     [\<lparr>d_id = 3, d_role = ''user'', d_content = ''new'', d_created_at = Some 3\<rparr>,
      \<lparr>d_id = 2, d_role = ''system'',
       d_content = separator_prefix @ '' INICIADA: t ---'',
       d_created_at = Some 2\<rparr>]"
proof -
  let ?old = "\<lparr>m_id = 1, m_role = ''user'', m_content = ''old'', m_created_at = 1\<rparr>"
  let ?sep = "\<lparr>m_id = 2, m_role = ''system'',
               m_content = separator_prefix @ '' INICIADA: t ---'', m_created_at = 2\<rparr>"
  let ?new = "\<lparr>m_id = 3, m_role = ''user'', m_content = ''new'', m_created_at = 3\<rparr>"
  let ?db0 = "\<lparr>rows = [?old], next_id = 2\<rparr>"
  let ?db1 = "\<lparr>rows = [?old, ?sep], next_id = 3\<rparr>"
  let ?page = "[\<lparr>d_id = 3, d_role = ''user'', d_content = ''new'', d_created_at = Some 3\<rparr>,
                \<lparr>d_id = 2, d_role = ''system'',
                 d_content = separator_prefix @ '' INICIADA: t ---'',
                 d_created_at = Some 2\<rparr>]"
  have wf: "well_formed ?db0"
    by (simp add: well_formed_def)
  have nosep: "list_all (\<lambda>r. \<not> is_separator r) (rows ?db0)"
    by (simp add: is_separator_def)
  then have old: "\<forall>r\<in>set (rows ?db0). is_separator r \<longrightarrow> m_created_at r < 2"
    by (simp add: list_all_iff)
  have cr: "create_new_conversation ?db0 ''t'' 2 None = (True, ?db1)"
    by (simp add: create_new_conversation_def Let_def)
  have lower_user: "lower ''user'' = ''user''"
    by (simp add: lower_def lower_char_def)
  have db2: "foldl apply_op ?db1 [AddMessage 3 None ''user'' ''new'']
               = \<lparr>rows = [?old, ?sep, ?new], next_id = 4\<rparr>"
    by (simp add: add_message_stores lower_user)
  have ls: "last_separator \<lparr>rows = [?old, ?sep, ?new], next_id = 4\<rparr> = Some 2"
    by (simp add: last_separator_def is_separator_def startswith_def
        order_by_created_at_desc_def)
  have q: "get_all_messages (\<lambda>p t. True) (foldl apply_op ?db1 [AddMessage 3 None ''user'' ''new''])
             None None 0 None None True = Inr (?page, 2)"
    unfolding db2
    by (simp add: get_all_messages_def matching_def ls Let_def order_by_created_at_desc_def
        effective_limit_def to_dict_def)
  have "\<forall>m\<in>set ?page. next_id ?db0 \<le> d_id m"
    using current_conversation_scope [OF wf old cr q] by blast
  then have ids: "list_all (\<lambda>m. 2 \<le> d_id m) ?page"
    by (simp add: list_all_iff)
  from wf nosep cr q ids show ?thesis by blast
qed

text \<open>
  C6 as stated fails: right after \<open>create_new_conversation\<close> on a new database, the query
  returns the separator itself, which was not appended after the separator.
\<close>

theorem separator_is_returned_counterexample:
  "create_new_conversation empty_db ''t'' 1 None
     = (True,
        \<lparr>rows = [\<lparr>m_id = 1, m_role = ''system'',
                  m_content = separator_prefix @ '' INICIADA: t ---'',
                  m_created_at = 1\<rparr>],
         next_id = 2\<rparr>) \<and>
   get_all_messages (\<lambda>p t. True)
     \<lparr>rows = [\<lparr>m_id = 1, m_role = ''system'',
               m_content = separator_prefix @ '' INICIADA: t ---'',
               m_created_at = 1\<rparr>],
      next_id = 2\<rparr>
     None None 0 None None True
     = Inr ([\<lparr>d_id = 1, d_role = ''system'',
              d_content = separator_prefix @ '' INICIADA: t ---'',
              d_created_at = Some 1\<rparr>], 1) \<and>
   \<not> list_all (\<lambda>m. 1 < d_id m)
       [\<lparr>d_id = 1, d_role = ''system'',
         d_content = separator_prefix @ '' INICIADA: t ---'',
         d_created_at = Some 1\<rparr>]"
proof -
  let ?sep = "\<lparr>m_id = 1, m_role = ''system'',
               m_content = separator_prefix @ '' INICIADA: t ---'', m_created_at = 1\<rparr>"
  have cr: "create_new_conversation empty_db ''t'' 1 None = (True, \<lparr>rows = [?sep], next_id = 2\<rparr>)"
    by (simp add: create_new_conversation_def empty_db_def Let_def)
  have ls: "last_separator \<lparr>rows = [?sep], next_id = 2\<rparr> = Some 1"
    by (simp add: last_separator_def is_separator_def startswith_def
        order_by_created_at_desc_def)
  have q: "get_all_messages (\<lambda>p t. True) \<lparr>rows = [?sep], next_id = 2\<rparr> None None 0 None None True
             = Inr ([to_dict ?sep], 1)"
    by (simp add: get_all_messages_def matching_def ls Let_def order_by_created_at_desc_def
        effective_limit_def)
  show ?thesis
    using cr q by (simp add: to_dict_def)
qed


section \<open>Properties of process\_stream and ask\<close>

lemma split_from_a: "split_from [] (''a '' @ rest) = ''a'' # split_from [] rest"
  by (simp add: isspace_def)

lemma str_split_replicate_a: "str_split (concat (replicate n ''a '')) = replicate n ''a''"
  unfolding str_split_def
proof (induction n)
  case 0
  show ?case by simp
next
  case (Suc n)
  have "split_from [] (concat (replicate (Suc n) ''a ''))
          = split_from [] (''a '' @ concat (replicate n ''a ''))"
    by simp
  also have "\<dots> = ''a'' # split_from [] (concat (replicate n ''a ''))"
    by (rule split_from_a)
  finally show ?case using Suc.IH by simp
qed

lemma length_replicate_a: "length (concat (replicate n ''a '')) = 2 * n"
  by (induction n) simp_all

lemma lower_q: "lower ''q'' = ''q''"
  by (simp add: lower_def lower_char_def)

lemma lower_hola: "lower ''hola'' = ''hola''"
  by (simp add: lower_def lower_char_def)

lemma lower_user: "lower ''user'' = ''user''"
  by (simp add: lower_def lower_char_def)

lemma lower_assistant: "lower ''assistant'' = ''assistant''"
  by (simp add: lower_def lower_char_def)

lemma strip_hola: "strip ''hola'' = ''hola''"
  by (simp add: strip_def isspace_def)

lemma str_split_b: "str_split ''b '' = [''b'']"
  by (simp add: str_split_def isspace_def)

lemma long_chunk_then_more:
  "30 \<le> n \<Longrightarrow>
   stream_loop 30 (Some on_chunk_callback) () [] 0
     [Delta (Some (concat (replicate n ''a ''))), Delta (Some ''b '')] None
   = ([Yield (non_final (concat (replicate n ''a ''))),
       Call (concat (replicate n ''a '')) False None (Inr True),
       Yield (final ''b ''), Call ''b '' True None (Inr True)], Returned)"
  by (simp add: str_split_replicate_a on_chunk_callback_def emit_rest_def after_def Let_def
      non_final_def final_def str_split_b)

lemma long_chunk_then_failure:
  "30 \<le> n \<Longrightarrow>
   stream_loop 30 (Some on_chunk_callback) () [] 0
     [Delta (Some (concat (replicate n ''a '')))] (Some e)
   = ([Yield (non_final (concat (replicate n ''a ''))),
       Call (concat (replicate n ''a '')) False None (Inr True),
       Yield (error_event e), Call [] True (Some (error_prefix @ e)) (Inr True)], Returned)"
  by (simp add: str_split_replicate_a on_chunk_callback_def on_error_def after_def Let_def
      non_final_def error_event_def)

lemma run_long_chunk_then_more:
  "snd (stream_response
          (replies \<lparr>items = [Delta (Some (concat (replicate 91 ''a ''))), Delta (Some ''b '')],
                    failure = None\<rparr>)
          messages model temperature max_tokens 30 (Some on_chunk_callback) ())
   = ([Yield (non_final (concat (replicate 91 ''a ''))),
       Call (concat (replicate 91 ''a '')) False None (Inr True),
       Yield (final ''b ''), Call ''b '' True None (Inr True)], Returned)"
  by (simp add: stream_response_def replies_def Let_def long_chunk_then_more
      del: stream_loop.simps)

lemma run_long_chunk_then_failure:
  "snd (stream_response
          (replies \<lparr>items = [Delta (Some (concat (replicate 30 ''a '')))],
                    failure = Some ''boom''\<rparr>)
          messages model temperature max_tokens 30 (Some on_chunk_callback) ())
   = ([Yield (non_final (concat (replicate 30 ''a ''))),
       Call (concat (replicate 30 ''a '')) False None (Inr True),
       Yield (error_event ''boom''), Call [] True (Some (error_prefix @ ''boom'')) (Inr True)],
      Returned)"
  by (simp add: stream_response_def replies_def Let_def long_chunk_then_failure
      del: stream_loop.simps)

lemma process_stream_quit:
  "process_stream
     (replies \<lparr>items = [Delta (Some (concat (replicate 91 ''a ''))), Delta (Some ''b '')],
               failure = None\<rparr>)
     [Line ''q''] st en messages model max_tokens temperature
   = (concat (replicate 91 ''a ''), Summary model 45 (en - st))"
  unfolding process_stream_def
  by (simp add: CONFIG_def run_long_chunk_then_more events_simps finished_simps
      str_split_replicate_a lower_q non_final_def estimate_def length_replicate_a)

lemma process_stream_ctrl_c:
  "process_stream
     (replies \<lparr>items = [Delta (Some (concat (replicate 91 ''a ''))), Delta (Some ''b '')],
               failure = None\<rparr>)
     [KeyboardInterrupt] st en messages model max_tokens temperature
   = (concat (replicate 91 ''a ''), Interrupted)"
  unfolding process_stream_def
  by (simp add: CONFIG_def run_long_chunk_then_more events_simps finished_simps
      str_split_replicate_a non_final_def estimate_def length_replicate_a)

lemma process_stream_api_failure:
  "process_stream
     (replies \<lparr>items = [Delta (Some (concat (replicate 30 ''a '')))], failure = Some ''boom''\<rparr>)
     [] st en messages model max_tokens temperature
   = (concat (replicate 30 ''a ''), Summary model 0 (en - st))"
  unfolding process_stream_def
  by (simp add: CONFIG_def run_long_chunk_then_failure events_simps finished_simps
      str_split_replicate_a non_final_def error_event_def error_prefix_def estimate_def
      length_replicate_a)

lemma history_after_question:
  "get_all_messages ilike
     \<lparr>rows = [\<lparr>m_id = 1, m_role = ''user'', m_content = ''hola'', m_created_at = 10\<rparr>],
      next_id = 2\<rparr> None (Some 20) 0 None None True
   = Inr ([\<lparr>d_id = 1, d_role = ''user'', d_content = ''hola'', d_created_at = Some 10\<rparr>], 1)"
  by (simp add: get_all_messages_def matching_def last_separator_def is_separator_def Let_def
      order_by_created_at_desc_def effective_limit_def to_dict_def)

lemma question_stored:
  "add_message empty_db 10 None ''user'' ''hola''
   = (Inr \<lparr>d_id = 1, d_role = ''user'', d_content = ''hola'', d_created_at = Some 10\<rparr>,
      \<lparr>rows = [\<lparr>m_id = 1, m_role = ''user'', m_content = ''hola'', m_created_at = 10\<rparr>],
       next_id = 2\<rparr>)"
  by (simp add: add_message_stores empty_db_def lower_user)

lemma answer_stored:
  "content \<noteq> [] \<Longrightarrow> CHR 0x00 \<notin> set content \<Longrightarrow>
   add_message \<lparr>rows = [r], next_id = 2\<rparr> 20 None ''assistant'' content
   = (Inr \<lparr>d_id = 2, d_role = ''assistant'', d_content = content, d_created_at = Some 20\<rparr>,
      \<lparr>rows = [r, \<lparr>m_id = 2, m_role = ''assistant'', m_content = content,
                      m_created_at = 20\<rparr>],
       next_id = 3\<rparr>)"
  by (simp add: add_message_stores lower_assistant)

lemma concat_replicate_a_nonempty: "0 < n \<Longrightarrow> concat (replicate n ''a '') \<noteq> []"
  by (cases n) simp_all

lemma concat_replicate_a_no_NUL: "CHR 0x00 \<notin> set (concat (replicate n ''a ''))"
  by (induction n) simp_all

text \<open>
  C3 asks that an answer cut short at the confirmation pause comes back marked as
  interrupted, and that \<open>ask\<close> stores no interrupted or failed answer. The code does this
  for Ctrl-C only. Here the first chunk has 91 words, so \<open>process_stream\<close> pauses after
  it: on the answer \<open>q\<close> it stops reading and returns the text so far, but with the
  metadata of a finished answer, and \<open>ask\<close> stores that text as the assistant's message;
  on Ctrl-C at the same prompt the metadata is \<open>{'interrupted': True}\<close>. In the same way,
  when the API fails after a chunk of 30 words, \<open>ask\<close> stores those 30 words.
\<close>

theorem quit_answer_is_persisted:
  "process_stream
     (replies \<lparr>items = [Delta (Some (concat (replicate 91 ''a ''))), Delta (Some ''b '')],
               failure = None\<rparr>)
     [Line ''q''] 0 1 [mk_message ''user'' ''hola''] ''m'' 1024 0
     = (concat (replicate 91 ''a ''), Summary ''m'' 45 1) \<and>
   \<not> get_interrupted (Summary ''m'' 45 1) \<and>
   process_stream
     (replies \<lparr>items = [Delta (Some (concat (replicate 91 ''a ''))), Delta (Some ''b '')],
               failure = None\<rparr>)
     [KeyboardInterrupt] 0 1 [mk_message ''user'' ''hola''] ''m'' 1024 0
     = (concat (replicate 91 ''a ''), Interrupted) \<and>
   ask (\<lambda>p t. True)
     \<lparr>question_time = 10, question_fault = None, history_fault = None,
      env_api = replies \<lparr>items = [Delta (Some (concat (replicate 91 ''a ''))),
                                   Delta (Some ''b '')], failure = None\<rparr>,
      env_stdin = [Line ''q''], env_start_time = 0, env_end_time = 1,
      answer_time = 20, answer_fault = None\<rparr>
     empty_db ''hola'' ''m'' 0 1024
     = (None,
        \<lparr>rows = [\<lparr>m_id = 1, m_role = ''user'', m_content = ''hola'', m_created_at = 10\<rparr>,
                 \<lparr>m_id = 2, m_role = ''assistant'', m_content = concat (replicate 91 ''a ''),
                  m_created_at = 20\<rparr>],
         next_id = 3\<rparr>) \<and>
   ask (\<lambda>p t. True)
     \<lparr>question_time = 10, question_fault = None, history_fault = None,
      env_api = replies \<lparr>items = [Delta (Some (concat (replicate 30 ''a '')))],
                         failure = Some ''boom''\<rparr>,
      env_stdin = [], env_start_time = 0, env_end_time = 1,
      answer_time = 20, answer_fault = None\<rparr>
     empty_db ''hola'' ''m'' 0 1024
     = (None,
        \<lparr>rows = [\<lparr>m_id = 1, m_role = ''user'', m_content = ''hola'', m_created_at = 10\<rparr>,
                 \<lparr>m_id = 2, m_role = ''assistant'', m_content = concat (replicate 30 ''a ''),
                  m_created_at = 20\<rparr>],
         next_id = 3\<rparr>)"
proof -
  have a: "concat (replicate 91 ''a '') \<noteq> []" "concat (replicate 30 ''a '') \<noteq> []"
    by (simp_all add: concat_replicate_a_nonempty)
  note a = a concat_replicate_a_no_NUL
  have ask1: "ask (\<lambda>p t. True)
     \<lparr>question_time = 10, question_fault = None, history_fault = None,
      env_api = replies \<lparr>items = [Delta (Some (concat (replicate 91 ''a ''))),
                                   Delta (Some ''b '')], failure = None\<rparr>,
      env_stdin = [Line ''q''], env_start_time = 0, env_end_time = 1,
      answer_time = 20, answer_fault = None\<rparr>
     empty_db ''hola'' ''m'' 0 1024
     = (None,
        \<lparr>rows = [\<lparr>m_id = 1, m_role = ''user'', m_content = ''hola'', m_created_at = 10\<rparr>,
                 \<lparr>m_id = 2, m_role = ''assistant'', m_content = concat (replicate 91 ''a ''),
                  m_created_at = 20\<rparr>],
         next_id = 3\<rparr>)"
    unfolding ask_def
    by (simp add: strip_hola lower_hola question_stored history_after_question
        process_stream_quit get_interrupted_def get_error_def answer_stored a Let_def)
  have ask2: "ask (\<lambda>p t. True)
     \<lparr>question_time = 10, question_fault = None, history_fault = None,
      env_api = replies \<lparr>items = [Delta (Some (concat (replicate 30 ''a '')))],
                         failure = Some ''boom''\<rparr>,
      env_stdin = [], env_start_time = 0, env_end_time = 1,
      answer_time = 20, answer_fault = None\<rparr>
     empty_db ''hola'' ''m'' 0 1024
     = (None,
        \<lparr>rows = [\<lparr>m_id = 1, m_role = ''user'', m_content = ''hola'', m_created_at = 10\<rparr>,
                 \<lparr>m_id = 2, m_role = ''assistant'', m_content = concat (replicate 30 ''a ''),
                  m_created_at = 20\<rparr>],
         next_id = 3\<rparr>)"
    unfolding ask_def
    by (simp add: strip_hola lower_hola question_stored history_after_question
        process_stream_api_failure get_interrupted_def get_error_def answer_stored a Let_def)
  show ?thesis
    using ask1 ask2 process_stream_quit [of 0 1 "[mk_message ''user'' ''hola'']" "''m''" 1024 0]
      process_stream_ctrl_c [of 0 1 "[mk_message ''user'' ''hola'']" "''m''" 1024 0]
    by (simp add: get_interrupted_def)
qed


end
